theory Spec2Isabelle
  imports Main "HOL-Library.Word"
begin

section \<open>Packet (include/net/packet.h)\<close>

text \<open>
  \<^verbatim>\<open>constexpr uint16_t MAX_MTU = 517;\<close>
\<close>

definition MAX_MTU :: "16 word" where
  "MAX_MTU = 517"

text \<open>
  \<^verbatim>\<open>struct Packet { uint16_t id = 0; uint16_t size = 0; std::array<uint8_t, MAX_MTU> buffer{}; }\<close>
  The fields \<open>id\<close> and \<open>size\<close> are called \<open>pkt_id\<close> and \<open>pkt_size\<close> here, since
  \<open>id\<close> and \<open>size\<close> are constants of HOL. The array is a list of bytes; a packet built
  by \<open>Packet_init\<close> and changed only by the operations below keeps 517 of them.
\<close>

record packet =
  pkt_id :: "16 word"
  pkt_size :: "16 word"
  buffer :: "8 word list"

text \<open>\<^verbatim>\<open>Packet packet{};\<close>: the default member initialisers.\<close>

definition Packet_init :: packet where
  "Packet_init = \<lparr>pkt_id = 0, pkt_size = 0, buffer = replicate (unat MAX_MTU) 0\<rparr>"

text \<open>
  \<^verbatim>\<open>bool isValid() const noexcept { return size > 0 && size <= MAX_MTU; }\<close>
  A const member function: it reads the packet and returns a value.
\<close>

definition isValid :: "packet \<Rightarrow> bool" where
  "isValid p = (pkt_size p > 0 \<and> pkt_size p \<le> MAX_MTU)"

text \<open>\<^verbatim>\<open>void clear() noexcept { id = 0; size = 0; buffer.fill(0); }\<close>\<close>

definition clear :: "packet \<Rightarrow> packet" where
  "clear p = p\<lparr>pkt_id := 0, pkt_size := 0, buffer := replicate (length (buffer p)) 0\<rparr>"

text \<open>
  \<^verbatim>\<open>std::memcpy(dst, src, n)\<close>: the first \<open>n\<close> bytes of \<open>dst\<close> become the bytes
  \<open>src[0] .. src[n-1]\<close>. The source pointer is modelled by the memory readable through
  it, \<open>src i\<close> being the byte at \<open>src[i]\<close>.
\<close>

definition memcpy :: "8 word list \<Rightarrow> (nat \<Rightarrow> 8 word) \<Rightarrow> nat \<Rightarrow> 8 word list" where
  "memcpy dst src n = map src [0..<n] @ drop n dst"

text \<open>
  \<^verbatim>\<open>
  bool setPayload(const uint8_t* data, const size_t len) noexcept
  {
      if (!data || len == 0 || len > MAX_MTU)
          return false;
      size = static_cast<uint16_t>(len);
      std::memcpy(buffer.data(), data, len);
      return true;
  }
  \<close>
  \<open>data = None\<close> is the null pointer. The function returns its result and the packet
  as it leaves it. The cast to \<open>uint16_t\<close> is \<open>of_nat\<close>, which reduces modulo \<open>2 ^ 16\<close>.
\<close>

definition setPayload :: "packet \<Rightarrow> (nat \<Rightarrow> 8 word) option \<Rightarrow> nat \<Rightarrow> bool \<times> packet" where
  "setPayload p data len =
     (case data of
        None \<Rightarrow> (False, p)
      | Some d \<Rightarrow>
          if len = 0 \<or> len > unat MAX_MTU then (False, p)
          else (True, p\<lparr>pkt_size := of_nat len, buffer := memcpy (buffer p) d len\<rparr>))"

section \<open>Error codes\<close>

text \<open>
  \<open>esp_err_t\<close> is ESP-IDF's \<^verbatim>\<open>typedef int esp_err_t\<close>; the constants are those of its
  \<^verbatim>\<open>esp_err.h\<close> (\<open>0x101 = 257\<close>, \<open>0x102 = 258\<close>, \<open>0x103 = 259\<close>, \<open>0x107 = 263\<close>).
\<close>

type_synonym esp_err_t = int

definition ESP_OK :: esp_err_t where
  "ESP_OK = 0"

definition ESP_FAIL :: esp_err_t where
  "ESP_FAIL = - 1"

definition ESP_ERR_NO_MEM :: esp_err_t where
  "ESP_ERR_NO_MEM = 257"

definition ESP_ERR_INVALID_ARG :: esp_err_t where
  "ESP_ERR_INVALID_ARG = 258"

definition ESP_ERR_INVALID_STATE :: esp_err_t where
  "ESP_ERR_INVALID_STATE = 259"

definition ESP_ERR_TIMEOUT :: esp_err_t where
  "ESP_ERR_TIMEOUT = 263"

section \<open>The collaborators of Transport\<close>

text \<open>
  Modelled from the spec: the bounded packet queue
  \<^verbatim>\<open>esp32_c3::objects::BufferedQueue<Packet, MAX_QUEUE_SIZE>\<close>, whose source is not
  under src/. Spec 3 and 4.2: fixed capacity, FIFO, entries held by copy;
  \<open>push(packet, 0)\<close> appends, or fails at once when the queue is full;
  \<open>pop(0)\<close> removes and returns the head, or nothing when the queue is empty;
  \<open>size()\<close> is the number of entries; draining leaves the queue empty. The engine
  calls them \<open>send\<close>, \<open>receive\<close>, \<open>waiting\<close> and \<open>reset\<close>, always with timeout 0.
  \<^verbatim>\<open>static constexpr size_t MAX_QUEUE_SIZE = 16;\<close> is in include/net/transport.h.
\<close>

type_synonym PacketQueue = "packet list"

definition MAX_QUEUE_SIZE :: nat where
  "MAX_QUEUE_SIZE = 16"

definition BufferedQueue_send :: "PacketQueue \<Rightarrow> packet \<Rightarrow> bool \<times> PacketQueue" where
  "BufferedQueue_send q packet =
     (if length q < MAX_QUEUE_SIZE then (True, q @ [packet]) else (False, q))"

definition BufferedQueue_receive :: "PacketQueue \<Rightarrow> packet option \<times> PacketQueue" where
  "BufferedQueue_receive q = (case q of [] \<Rightarrow> (None, []) | packet # q' \<Rightarrow> (Some packet, q'))"

definition BufferedQueue_reset :: "PacketQueue \<Rightarrow> PacketQueue" where
  "BufferedQueue_reset q = []"

definition BufferedQueue_waiting :: "PacketQueue \<Rightarrow> nat" where
  "BufferedQueue_waiting q = length q"

text \<open>
  Modelled from the spec: the worker \<^verbatim>\<open>esp32_c3::objects::Thread\<close>, whose source is not
  under src/. Spec 4.3: \<open>start\<close> starts the cooperative dispatch loop and returns true
  (also when it is already running); \<open>stop\<close> halts it. A thread that was never started
  is not running. The source names one state, \<^verbatim>\<open>Thread::State::NOT_RUNNING\<close>; every
  other state is \<open>RUNNING\<close> here.
\<close>

datatype thread_state = NOT_RUNNING | RUNNING

definition Thread_quickStart :: "thread_state \<Rightarrow> bool \<times> thread_state" where
  "Thread_quickStart t = (True, RUNNING)"

definition Thread_stop :: "thread_state \<Rightarrow> thread_state" where
  "Thread_stop t = NOT_RUNNING"

section \<open>Transport (include/net/transport.h, src/transport.cpp)\<close>

text \<open>\<^verbatim>\<open>static constexpr uint32_t SEND_INTERVAL_US = 20 * 1000;\<close>\<close>

definition SEND_INTERVAL_US :: "32 word" where
  "SEND_INTERVAL_US = 20 * 1000"

text \<open>
  The members of \<open>Transport\<close>. \<open>mDataCallback\<close> is the bound receive handler, if any: a
  handler is modelled by the packets it passes to its reply function for a packet it
  receives. \<open>mErrorCallback\<close> is the bound error handler, if any (an empty
  \<open>std::function\<close> is \<open>None\<close>): user code that is given the packet and the outcome
  and may call the engine while it runs; a handler is modelled by the calls of the
  engine's public operations it makes for them, in order (none for a handler that
  only records the error). \<open>mNextSendTime\<close> is a \<open>uint64_t\<close>. \<open>adapter\<close> is the
  state of the derived class (the channel).
\<close>

text \<open>
  The public operations of \<open>Transport\<close> that change the engine: \<open>send\<close>,
  \<open>clearQueue\<close>, \<open>stop\<close>, \<open>start\<close> and \<open>bind\<close>.
\<close>

datatype api_call =
  CallSend packet
| CallClearQueue
| CallStop
| CallStart
| CallBind "(packet \<Rightarrow> packet list) option" "(packet \<Rightarrow> esp_err_t \<Rightarrow> api_call list) option"

record 'ad transport =
  mThread :: thread_state
  mDataCallback :: "(packet \<Rightarrow> packet list) option"
  mErrorCallback :: "(packet \<Rightarrow> esp_err_t \<Rightarrow> api_call list) option"
  mSendQueue :: PacketQueue
  mNextSendTime :: "64 word"
  mIsInitialized :: bool
  adapter :: 'ad

text \<open>
  What a dispatch tick does to the world outside the engine: a call of the adapter's
  \<open>sendImpl\<close> (with the packet passed and the outcome returned), a call of the bound
  error handler, a call of the bound receive handler.
\<close>

datatype event =
  SendImpl packet esp_err_t
| ErrorCallback packet esp_err_t
| DataCallback packet

text \<open>
  The constructor: \<^verbatim>\<open>mSendQueue(MAX_QUEUE_SIZE)\<close>, \<^verbatim>\<open>mNextSendTime = 0\<close>,
  \<^verbatim>\<open>mIsInitialized = false\<close>, no handler bound, the thread created and not started.
\<close>

definition Transport_init :: "'ad \<Rightarrow> 'ad transport" where
  "Transport_init ad =
     \<lparr>mThread = NOT_RUNNING, mDataCallback = None, mErrorCallback = None, mSendQueue = [],
      mNextSendTime = 0, mIsInitialized = False, adapter = ad\<rparr>"

text \<open>\<^verbatim>\<open>mDataCallback = std::move(dataCallback); mErrorCallback = std::move(errorCallback);\<close>\<close>

definition bind ::
  "'ad transport \<Rightarrow> (packet \<Rightarrow> packet list) option \<Rightarrow>
   (packet \<Rightarrow> esp_err_t \<Rightarrow> api_call list) option \<Rightarrow> 'ad transport" where
  "bind s dataCallback errorCallback =
     s\<lparr>mDataCallback := dataCallback, mErrorCallback := errorCallback\<rparr>"

text \<open>\<^verbatim>\<open>return mThread.quickStart(loop);\<close>\<close>

definition start :: "'ad transport \<Rightarrow> bool \<times> 'ad transport" where
  "start s = (let (ok, t) = Thread_quickStart (mThread s) in (ok, s\<lparr>mThread := t\<rparr>))"

text \<open>\<^verbatim>\<open>(void)mSendQueue.reset(); mThread.stop();\<close>\<close>

definition stop :: "'ad transport \<Rightarrow> 'ad transport" where
  "stop s = (let s1 = s\<lparr>mSendQueue := BufferedQueue_reset (mSendQueue s)\<rparr>
             in s1\<lparr>mThread := Thread_stop (mThread s1)\<rparr>)"

text \<open>\<^verbatim>\<open>return mIsInitialized && mThread.state() != Thread::State::NOT_RUNNING;\<close>\<close>

definition isInitialized :: "'ad transport \<Rightarrow> bool" where
  "isInitialized s = (mIsInitialized s \<and> mThread s \<noteq> NOT_RUNNING)"

definition setInitialized :: "'ad transport \<Rightarrow> bool \<Rightarrow> 'ad transport" where
  "setInitialized s v = s\<lparr>mIsInitialized := v\<rparr>"

text \<open>
  \<^verbatim>\<open>
  esp_err_t Transport::send(const Packet& packet)
  {
      std::lock_guard lock(mMutex);
      if (!isInitialized() || !packet.isValid())
          return ESP_ERR_INVALID_ARG;
      return mSendQueue.send(packet, 0) ? ESP_OK : ESP_ERR_INVALID_STATE;
  }
  \<close>
\<close>

definition send :: "'ad transport \<Rightarrow> packet \<Rightarrow> esp_err_t \<times> 'ad transport" where
  "send s packet =
     (if \<not> isInitialized s \<or> \<not> isValid packet then (ESP_ERR_INVALID_ARG, s)
      else let (ok, q) = BufferedQueue_send (mSendQueue s) packet
           in (if ok then ESP_OK else ESP_ERR_INVALID_STATE, s\<lparr>mSendQueue := q\<rparr>))"

text \<open>
  \<^verbatim>\<open>
  return ret == ESP_ERR_NO_MEM || ret == ESP_ERR_INVALID_STATE || ret == ESP_ERR_TIMEOUT;
  \<close>
\<close>

definition isTemporary :: "esp_err_t \<Rightarrow> bool" where
  "isTemporary ret = (ret = ESP_ERR_NO_MEM \<or> ret = ESP_ERR_INVALID_STATE \<or> ret = ESP_ERR_TIMEOUT)"

text \<open>
  Consecutive calls of \<open>send\<close>, one per packet of the list, with no dispatch tick in
  between: the results in order, and the engine after the last call.
\<close>

fun send_each :: "'ad transport \<Rightarrow> packet list \<Rightarrow> esp_err_t list \<times> 'ad transport" where
  "send_each s [] = ([], s)"
| "send_each s (packet # packets) =
     (let (r, s1) = send s packet;
          (rs, s2) = send_each s1 packets
      in (r # rs, s2))"

text \<open>\<^verbatim>\<open>return mSendQueue.waiting();\<close>\<close>

definition getQueueSize :: "'ad transport \<Rightarrow> nat" where
  "getQueueSize s = BufferedQueue_waiting (mSendQueue s)"

text \<open>
  \<^verbatim>\<open>
  size_t count = 0;
  Packet packet;
  while (mSendQueue.receive(packet, 0)) { count++; }
  return count;
  \<close>
\<close>

function clearQueue_loop :: "PacketQueue \<Rightarrow> nat \<Rightarrow> nat \<times> PacketQueue" where
  "clearQueue_loop q count =
     (case BufferedQueue_receive q of
        (None, q') \<Rightarrow> (count, q')
      | (Some packet, q') \<Rightarrow> clearQueue_loop q' (count + 1))"
  by pat_completeness auto
termination
  by (relation "measure (\<lambda>(q, count). length q)")
    (auto simp: BufferedQueue_receive_def split: list.splits)

declare clearQueue_loop.simps [simp del]

definition clearQueue :: "'ad transport \<Rightarrow> nat \<times> 'ad transport" where
  "clearQueue s = (let (count, q) = clearQueue_loop (mSendQueue s) 0 in (count, s\<lparr>mSendQueue := q\<rparr>))"

text \<open>
  \<^verbatim>\<open>if (mErrorCallback) mErrorCallback(packet, err);\<close>
  The call is an event, and the calls the handler makes of the engine are carried out,
  in order, before it returns. \<open>errorCallback_calls\<close> names the calls the bound
  handler makes (none when no handler is bound).
\<close>

fun api_call_apply :: "'ad transport \<Rightarrow> api_call \<Rightarrow> 'ad transport" where
  "api_call_apply s (CallSend packet) = snd (send s packet)"
| "api_call_apply s CallClearQueue = snd (clearQueue s)"
| "api_call_apply s CallStop = stop s"
| "api_call_apply s CallStart = snd (start s)"
| "api_call_apply s (CallBind dataCallback errorCallback) = bind s dataCallback errorCallback"

definition errorCallback_calls :: "'ad transport \<Rightarrow> packet \<Rightarrow> esp_err_t \<Rightarrow> api_call list" where
  "errorCallback_calls s packet err =
     (case mErrorCallback s of None \<Rightarrow> [] | Some handler \<Rightarrow> handler packet err)"

definition errorCallback_call :: "'ad transport \<Rightarrow> packet \<Rightarrow> esp_err_t \<Rightarrow> 'ad transport \<times> event list" where
  "errorCallback_call s packet err =
     (case mErrorCallback s of
        None \<Rightarrow> (s, [])
      | Some handler \<Rightarrow> (foldl api_call_apply s (handler packet err), [ErrorCallback packet err]))"

text \<open>
  \<^verbatim>\<open>
  void Transport::handleSendError(const Packet& packet, const esp_err_t err)
  {
      if (mErrorCallback) mErrorCallback(packet, err);
      if (isTemporary(err))
          mSendQueue.send(packet, 0);
  }
  \<close>
  The handler runs first; the re-enqueue acts on the queue as the handler left it, and
  its result is not looked at.
\<close>

definition handleSendError :: "'ad transport \<Rightarrow> packet \<Rightarrow> esp_err_t \<Rightarrow> 'ad transport \<times> event list" where
  "handleSendError s packet err =
     (let (s1, evs) = errorCallback_call s packet err
      in if isTemporary err
         then (s1\<lparr>mSendQueue := snd (BufferedQueue_send (mSendQueue s1) packet)\<rparr>, evs)
         else (s1, evs))"

text \<open>
  \<^verbatim>\<open>
  void Transport::processSendQueue()
  {
      if (mNextSendTime > esp_timer_get_time()) return;
      if (Packet packet; mSendQueue.receive(packet, 0))
      {
          if (const esp_err_t ret = sendImpl(packet); ret == ESP_OK)
              mNextSendTime = esp_timer_get_time() + SEND_INTERVAL_US;
          else
              handleSendError(packet, ret);
      }
  }
  \<close>
  \<open>sendImpl\<close> is the pure virtual \<^verbatim>\<open>esp_err_t sendImpl(Packet& packet)\<close> of the derived
  class: it sees the engine, may change the packet it is passed (a non-const
  reference) and its own state, and returns an outcome. The two calls of
  \<open>esp_timer_get_time\<close> are the two clock readings \<open>now1\<close> (before the queue is
  looked at) and \<open>now2\<close> (after \<open>sendImpl\<close> has returned), in microseconds; the
  \<open>int64_t\<close> read is converted to \<open>uint64_t\<close> for the comparison, and the sum is
  stored in a \<open>uint64_t\<close>, so both are 64-bit words.
\<close>

definition processSendQueue ::
  "('ad transport \<Rightarrow> packet \<Rightarrow> esp_err_t \<times> packet \<times> 'ad) \<Rightarrow> 64 word \<Rightarrow> 64 word \<Rightarrow>
   'ad transport \<Rightarrow> 'ad transport \<times> event list" where
  "processSendQueue sendImpl now1 now2 s =
     (if mNextSendTime s > now1 then (s, [])
      else case BufferedQueue_receive (mSendQueue s) of
        (None, q) \<Rightarrow> (s\<lparr>mSendQueue := q\<rparr>, [])
      | (Some packet, q) \<Rightarrow>
          (let s1 = s\<lparr>mSendQueue := q\<rparr>;
               (ret, packet', ad) = sendImpl s1 packet;
               s2 = s1\<lparr>adapter := ad\<rparr>
           in if ret = ESP_OK
              then (s2\<lparr>mNextSendTime := now2 + ucast SEND_INTERVAL_US\<rparr>, [SendImpl packet ret])
              else (let (s3, evs) = handleSendError s2 packet' ret
                    in (s3, SendImpl packet ret # evs))))"

text \<open>\<^verbatim>\<open>virtual void processReceivedData() {};\<close>: the default does nothing.\<close>

definition processReceivedData :: "'ad transport \<Rightarrow> 'ad transport \<times> event list" where
  "processReceivedData s = (s, [])"

text \<open>
  The body of the worker (the lambda of \<open>Transport::start\<close>):
  \<^verbatim>\<open>processSendQueue(); processReceivedData(); return LoopAction::CONTINUE;\<close>
  \<open>recv\<close> is the \<open>processReceivedData\<close> of the derived class.
\<close>

definition loop ::
  "('ad transport \<Rightarrow> packet \<Rightarrow> esp_err_t \<times> packet \<times> 'ad) \<Rightarrow>
   ('ad transport \<Rightarrow> 'ad transport \<times> event list) \<Rightarrow> 64 word \<Rightarrow> 64 word \<Rightarrow>
   'ad transport \<Rightarrow> 'ad transport \<times> event list" where
  "loop sendImpl recv now1 now2 s =
     (let (s1, e1) = processSendQueue sendImpl now1 now2 s;
          (s2, e2) = recv s1
      in (s2, e1 @ e2))"

text \<open>
  Modelled from the spec: how \<^verbatim>\<open>esp32_c3::objects::Thread\<close> drives the loop (spec 4.3
  and 5: the dispatch tick is executed repeatedly by the single worker, and \<open>stop\<close>
  halts it). One tick per pair of clock readings, for as long as the thread runs.
\<close>

fun run ::
  "('ad transport \<Rightarrow> packet \<Rightarrow> esp_err_t \<times> packet \<times> 'ad) \<Rightarrow>
   ('ad transport \<Rightarrow> 'ad transport \<times> event list) \<Rightarrow> (64 word \<times> 64 word) list \<Rightarrow>
   'ad transport \<Rightarrow> 'ad transport \<times> event list" where
  "run sendImpl recv [] s = (s, [])"
| "run sendImpl recv ((now1, now2) # ticks) s =
     (if mThread s = NOT_RUNNING then (s, [])
      else let (s1, e1) = loop sendImpl recv now1 now2 s;
               (s2, e2) = run sendImpl recv ticks s1
           in (s2, e1 @ e2))"

section \<open>The handler call shared by the serial channels\<close>

text \<open>
  Modelled from the spec: \<^verbatim>\<open>esp32_c3::objects::Callback<Packet>::invoke\<close>, whose source
  is not under src/. Spec 4.3 step 3: the bound receive handler is invoked with the
  packet and a reply function that internally calls \<open>send\<close>. Both channels pass
  \<^verbatim>\<open>[&](const Packet& result) { send(result); }\<close>, which drops the result of \<open>send\<close>.
\<close>

definition Callback_invoke ::
  "(packet \<Rightarrow> packet list) \<Rightarrow> packet \<Rightarrow> 'ad transport \<Rightarrow> 'ad transport \<times> event list" where
  "Callback_invoke handler packet s =
     (fold (\<lambda>result s'. snd (send s' result)) (handler packet) s, [DataCallback packet])"

section \<open>Uart (src/uart.cpp)\<close>

text \<open>
  The ESP-IDF driver is the environment of the channel. Each driver call is a field
  giving what the call returns: \<open>uart_write_bytes\<close> the \<open>int\<close> returned for the bytes
  passed; \<open>uart_read_bytes\<close>, for the length asked for, the \<open>int\<close> returned and the
  bytes stored at the start of the caller's buffer; \<open>uart_get_buffered_data_len\<close> the
  value left in \<open>avail\<close>.
\<close>

record uart_driver =
  uart_write_bytes :: "8 word list \<Rightarrow> int"
  uart_read_bytes :: "nat \<Rightarrow> int \<times> 8 word list"
  uart_get_buffered_data_len :: nat

text \<open>
  \<^verbatim>\<open>
  size_t Uart::available() const noexcept
  {
      if (!isInitialized()) return 0;
      size_t avail = 0;
      uart_get_buffered_data_len(mUartNum, &avail);
      return avail;
  }
  \<close>
\<close>

definition Uart_available :: "uart_driver transport \<Rightarrow> nat" where
  "Uart_available s = (if \<not> isInitialized s then 0 else uart_get_buffered_data_len (adapter s))"

text \<open>
  \<^verbatim>\<open>
  size_t Uart::read(std::span<uint8_t> buffer) const noexcept
  {
      if (!isInitialized() || buffer.empty()) return 0;
      const int len = uart_read_bytes(mUartNum, buffer.data(), buffer.size(), pdMS_TO_TICKS(100));
      if (len < 0) return 0;
      return static_cast<size_t>(len);
  }
  \<close>
  The span is the list of its bytes; the function returns the count and the span as the
  driver left it.
\<close>

definition Uart_read :: "uart_driver transport \<Rightarrow> 8 word list \<Rightarrow> nat \<times> 8 word list" where
  "Uart_read s buf =
     (if \<not> isInitialized s \<or> buf = [] then (0, buf)
      else let (len, bytes) = uart_read_bytes (adapter s) (length buf);
               buf' = take (length buf) bytes @ drop (length bytes) buf
           in if len < 0 then (0, buf') else (nat len, buf'))"

text \<open>
  \<^verbatim>\<open>
  size_t Uart::write(const std::span<const uint8_t> data) const noexcept
  {
      if (!isInitialized() || data.empty()) return 0;
      const int len = uart_write_bytes(mUartNum, data.data(), data.size());
      if (len < 0) return 0;
      return static_cast<size_t>(len);
  }
  \<close>
\<close>

definition Uart_write :: "uart_driver transport \<Rightarrow> 8 word list \<Rightarrow> nat" where
  "Uart_write s data =
     (if \<not> isInitialized s \<or> data = [] then 0
      else let len = uart_write_bytes (adapter s) data
           in if len < 0 then 0 else nat len)"

text \<open>
  \<^verbatim>\<open>
  esp_err_t Uart::sendImpl(Packet& packet)
  {
      const size_t written = write(std::span(packet.buffer.data(), packet.size));
      if (written != packet.size) return ESP_FAIL;
      return ESP_OK;
  }
  \<close>
  The span of the first \<open>size\<close> bytes of the buffer is \<open>take\<close>; the packets of the send
  queue are valid, so their size is within the buffer.
\<close>

definition Uart_sendImpl :: "uart_driver transport \<Rightarrow> packet \<Rightarrow> esp_err_t \<times> packet \<times> uart_driver" where
  "Uart_sendImpl s packet =
     (let written = Uart_write s (take (unat (pkt_size packet)) (buffer packet))
      in if written \<noteq> unat (pkt_size packet) then (ESP_FAIL, packet, adapter s)
         else (ESP_OK, packet, adapter s))"

text \<open>
  \<^verbatim>\<open>
  void Uart::processReceivedData()
  {
      if (!mDataCallback || available() == 0) return;
      Packet packet{};
      packet.size = read(std::span<uint8_t>(packet.buffer));
      if (packet.size > 0)
          mDataCallback->invoke(packet, [&](const Packet& result) { send(result); });
  }
  \<close>
  The assignment to \<open>packet.size\<close> converts the \<open>size_t\<close> to \<open>uint16_t\<close>.
\<close>

definition Uart_processReceivedData :: "uart_driver transport \<Rightarrow> uart_driver transport \<times> event list" where
  "Uart_processReceivedData s =
     (case mDataCallback s of
        None \<Rightarrow> (s, [])
      | Some handler \<Rightarrow>
          if Uart_available s = 0 then (s, [])
          else let (n, buf) = Uart_read s (buffer Packet_init);
                   packet = Packet_init\<lparr>pkt_size := of_nat n, buffer := buf\<rparr>
               in if pkt_size packet > 0 then Callback_invoke handler packet s else (s, []))"

section \<open>UsbJtag (src/usb_jtag.cpp)\<close>

record usb_driver =
  usb_serial_jtag_write_bytes :: "8 word list \<Rightarrow> int"
  usb_serial_jtag_read_bytes :: "nat \<Rightarrow> int \<times> 8 word list"

text \<open>
  \<^verbatim>\<open>
  size_t UsbJtag::read(std::span<uint8_t> buffer) const noexcept
  {
      if (!isInitialized() || buffer.empty()) return 0;
      const int len = usb_serial_jtag_read_bytes(buffer.data(), buffer.size(), pdMS_TO_TICKS(50));
      if (len < 0) return 0;
      return static_cast<size_t>(len);
  }
  \<close>
\<close>

definition UsbJtag_read :: "usb_driver transport \<Rightarrow> 8 word list \<Rightarrow> nat \<times> 8 word list" where
  "UsbJtag_read s buf =
     (if \<not> isInitialized s \<or> buf = [] then (0, buf)
      else let (len, bytes) = usb_serial_jtag_read_bytes (adapter s) (length buf);
               buf' = take (length buf) bytes @ drop (length bytes) buf
           in if len < 0 then (0, buf') else (nat len, buf'))"

text \<open>
  \<^verbatim>\<open>
  size_t UsbJtag::write(const std::span<const uint8_t> data) const noexcept
  {
      if (!isInitialized() || data.empty()) return 0;
      const int len = usb_serial_jtag_write_bytes(data.data(), data.size(), pdMS_TO_TICKS(100));
      if (len < 0) return 0;
      return static_cast<size_t>(len);
  }
  \<close>
\<close>

definition UsbJtag_write :: "usb_driver transport \<Rightarrow> 8 word list \<Rightarrow> nat" where
  "UsbJtag_write s data =
     (if \<not> isInitialized s \<or> data = [] then 0
      else let len = usb_serial_jtag_write_bytes (adapter s) data
           in if len < 0 then 0 else nat len)"

text \<open>\<open>UsbJtag::sendImpl\<close> has the body of \<open>Uart::sendImpl\<close>, over \<open>UsbJtag::write\<close>.\<close>

definition UsbJtag_sendImpl :: "usb_driver transport \<Rightarrow> packet \<Rightarrow> esp_err_t \<times> packet \<times> usb_driver" where
  "UsbJtag_sendImpl s packet =
     (let written = UsbJtag_write s (take (unat (pkt_size packet)) (buffer packet))
      in if written \<noteq> unat (pkt_size packet) then (ESP_FAIL, packet, adapter s)
         else (ESP_OK, packet, adapter s))"

text \<open>
  \<^verbatim>\<open>
  void UsbJtag::processReceivedData()
  {
      if (!mDataCallback) return;
      Packet packet{};
      packet.size = read(std::span<uint8_t>(packet.buffer));
      if (packet.size > 0)
          mDataCallback->invoke(packet, [&](const Packet& result) { send(result); });
  }
  \<close>
\<close>

definition UsbJtag_processReceivedData :: "usb_driver transport \<Rightarrow> usb_driver transport \<times> event list" where
  "UsbJtag_processReceivedData s =
     (case mDataCallback s of
        None \<Rightarrow> (s, [])
      | Some handler \<Rightarrow>
          let (n, buf) = UsbJtag_read s (buffer Packet_init);
              packet = Packet_init\<lparr>pkt_size := of_nat n, buffer := buf\<rparr>
          in if pkt_size packet > 0 then Callback_invoke handler packet s else (s, []))"

section \<open>A scripted adapter\<close>

text \<open>
  A test double for \<open>sendImpl\<close>: the state of the adapter is the list of outcomes still
  to return, one per call; once the list is used up every call succeeds. It leaves
  the packet as it is.
\<close>

definition scripted_sendImpl ::
  "esp_err_t list transport \<Rightarrow> packet \<Rightarrow> esp_err_t \<times> packet \<times> esp_err_t list" where
  "scripted_sendImpl s packet =
     (case adapter s of [] \<Rightarrow> (ESP_OK, packet, []) | r # rs \<Rightarrow> (r, packet, rs))"

text \<open>An adapter whose \<open>sendImpl\<close> always succeeds and changes nothing.\<close>

definition succeeding_sendImpl :: "'ad transport \<Rightarrow> packet \<Rightarrow> esp_err_t \<times> packet \<times> 'ad" where
  "succeeding_sendImpl s packet = (ESP_OK, packet, adapter s)"

section \<open>Fixtures\<close>

text \<open>
  An engine as a test sets it up: constructed over the adapter state \<open>ad\<close>, an error
  handler bound or not, no receive handler, the adapter initialised, then started.
  \<open>one_byte\<close> is a valid packet of one byte. \<open>log_only\<close> is an error handler that
  calls nothing of the engine; \<open>send_again\<close> is one that answers every error by
  sending a one-byte packet of id 99; \<open>clear_all\<close> is one that answers every error
  by clearing the queue.
\<close>

definition log_only :: "packet \<Rightarrow> esp_err_t \<Rightarrow> api_call list" where
  "log_only packet err = []"

definition send_again :: "packet \<Rightarrow> esp_err_t \<Rightarrow> api_call list" where
  "send_again packet err = [CallSend (Packet_init\<lparr>pkt_id := 99, pkt_size := 1\<rparr>)]"

definition clear_all :: "packet \<Rightarrow> esp_err_t \<Rightarrow> api_call list" where
  "clear_all packet err = [CallClearQueue]"

definition running_engine ::
  "'ad \<Rightarrow> (packet \<Rightarrow> esp_err_t \<Rightarrow> api_call list) option \<Rightarrow> 'ad transport" where
  "running_engine ad errorCallback =
     snd (start (setInitialized (bind (Transport_init ad) None errorCallback) True))"

definition one_byte :: packet where
  "one_byte = Packet_init\<lparr>pkt_size := 1\<rparr>"

text \<open>
  Serial drivers for tests: a write accepts at most two bytes, a read stores the three
  bytes 1, 2, 3 (as many as fit) and returns their number. \<open>echo\<close> is a receive
  handler that replies with the packet it received.
\<close>

definition test_uart :: uart_driver where
  "test_uart =
     \<lparr>uart_write_bytes = (\<lambda>data. int (min 2 (length data))),
      uart_read_bytes = (\<lambda>n. (int (min 3 n), take n [1, 2, 3])),
      uart_get_buffered_data_len = 3\<rparr>"

definition test_usb :: usb_driver where
  "test_usb =
     \<lparr>usb_serial_jtag_write_bytes = (\<lambda>data. int (min 2 (length data))),
      usb_serial_jtag_read_bytes = (\<lambda>n. (int (min 3 n), take n [1, 2, 3]))\<rparr>"

definition echo :: "packet \<Rightarrow> packet list" where
  "echo packet = [packet]"

section \<open>Properties of Packet\<close>

lemma unat_MAX_MTU: "unat MAX_MTU = 517"
  by (simp add: MAX_MTU_def)

text \<open>
  Claim C6. For every packet \<open>p\<close>, \<open>isValid p\<close> is true if and only if the size field,
  read as a number, is greater than 0 and at most 517. \<open>isValid\<close> is a function from
  packets to booleans, so it changes nothing.
\<close>

theorem isValid_iff: "isValid p \<longleftrightarrow> 0 < unat (pkt_size p) \<and> unat (pkt_size p) \<le> 517"
  by (simp add: isValid_def word_less_nat_alt word_le_nat_alt unat_MAX_MTU)

text \<open>
  Claim C7. \<open>setPayload p data len\<close> returns false and leaves the packet as it was when
  \<open>data\<close> is null, \<open>len\<close> is 0 or \<open>len\<close> exceeds 517. Otherwise it returns true, the
  size field is \<open>len\<close>, the first \<open>len\<close> bytes of the buffer are the first \<open>len\<close> bytes
  of \<open>data\<close>, the rest of the buffer and the id are unchanged.
\<close>

theorem setPayload_spec:
  "(data = None \<or> len = 0 \<or> 517 < len \<longrightarrow> setPayload p data len = (False, p)) \<and>
   (\<forall>d. data = Some d \<and> 0 < len \<and> len \<le> 517 \<longrightarrow>
      fst (setPayload p data len) = True \<and>
      unat (pkt_size (snd (setPayload p data len))) = len \<and>
      pkt_id (snd (setPayload p data len)) = pkt_id p \<and>
      take len (buffer (snd (setPayload p data len))) = map d [0..<len] \<and>
      drop len (buffer (snd (setPayload p data len))) = drop len (buffer p) \<and>
      length (buffer (snd (setPayload p data len))) = max len (length (buffer p)))"
proof (intro conjI impI allI)
  assume "data = None \<or> len = 0 \<or> 517 < len"
  then show "setPayload p data len = (False, p)"
    by (auto simp: setPayload_def unat_MAX_MTU split: option.splits)
next
  fix d
  assume a: "data = Some d \<and> 0 < len \<and> len \<le> 517"
  then have eq: "setPayload p data len =
      (True, p\<lparr>pkt_size := of_nat len, buffer := memcpy (buffer p) d len\<rparr>)"
    by (simp add: setPayload_def unat_MAX_MTU)
  show "fst (setPayload p data len) = True"
    by (simp add: eq)
  have "len < 2 ^ 16" using a by simp
  then have "unat (of_nat len :: 16 word) = len"
    by (simp add: unat_of_nat)
  then show "unat (pkt_size (snd (setPayload p data len))) = len"
    by (simp add: eq)
  show "pkt_id (snd (setPayload p data len)) = pkt_id p"
    by (simp add: eq)
  show "take len (buffer (snd (setPayload p data len))) = map d [0..<len]"
    by (simp add: eq memcpy_def)
  show "drop len (buffer (snd (setPayload p data len))) = drop len (buffer p)"
    by (simp add: eq memcpy_def)
  show "length (buffer (snd (setPayload p data len))) = max len (length (buffer p))"
    by (simp add: eq memcpy_def)
qed

theorem setPayload_spec_witness:
  "setPayload Packet_init None 10 = (False, Packet_init) \<and>
   setPayload Packet_init (Some (\<lambda>i. 7)) 518 = (False, Packet_init) \<and>
   fst (setPayload Packet_init (Some (\<lambda>i. 7)) 3) = True \<and>
   unat (pkt_size (snd (setPayload Packet_init (Some (\<lambda>i. 7)) 3))) = 3 \<and>
   take 3 (buffer (snd (setPayload Packet_init (Some (\<lambda>i. 7)) 3))) = [7, 7, 7]"
  using setPayload_spec [of None 10 Packet_init]
    setPayload_spec [of "Some (\<lambda>i. 7)" 518 Packet_init]
    setPayload_spec [of "Some (\<lambda>i. 7)" 3 Packet_init]
  by (simp add: upt_rec)

section \<open>Properties of send\<close>

lemma send_cases:
  "send s p =
     (if \<not> isInitialized s \<or> \<not> isValid p then (ESP_ERR_INVALID_ARG, s)
      else if length (mSendQueue s) < MAX_QUEUE_SIZE
        then (ESP_OK, s\<lparr>mSendQueue := mSendQueue s @ [p]\<rparr>)
      else (ESP_ERR_INVALID_STATE, s))"
  by (simp add: send_def BufferedQueue_send_def)

lemma err_distinct:
  "ESP_OK \<noteq> ESP_ERR_INVALID_ARG" "ESP_OK \<noteq> ESP_ERR_INVALID_STATE"
  "ESP_ERR_INVALID_ARG \<noteq> ESP_ERR_INVALID_STATE" "ESP_ERR_INVALID_ARG \<noteq> ESP_OK"
  "ESP_ERR_INVALID_STATE \<noteq> ESP_OK" "ESP_ERR_INVALID_STATE \<noteq> ESP_ERR_INVALID_ARG"
  by (simp_all add: ESP_OK_def ESP_ERR_INVALID_ARG_def ESP_ERR_INVALID_STATE_def)

lemma start_running: "start s = (True, s\<lparr>mThread := RUNNING\<rparr>)"
  by (simp add: start_def Thread_quickStart_def)

text \<open>
  Claim C3. \<open>send s p\<close> returns \<open>ESP_ERR_INVALID_ARG\<close> (the spec's InvalidArgument)
  exactly when the engine is not initialised and running or \<open>p\<close> is not valid, and the
  engine is then unchanged; so does every call while the thread is not running, and
  every call on a freshly constructed engine, whatever the packet. For an initialised,
  running engine and a valid packet, the call returns \<open>ESP_ERR_INVALID_STATE\<close> (the
  code's result for a full queue, the spec's QueueFull) exactly when the queue holds
  \<open>MAX_QUEUE_SIZE\<close> packets, leaving the engine unchanged, and \<open>ESP_OK\<close> otherwise,
  with \<open>p\<close> appended to the queue. The queue never holds more than its capacity.
\<close>

theorem send_result:
  assumes "length (mSendQueue s) \<le> MAX_QUEUE_SIZE"
  shows "(fst (send s p) = ESP_ERR_INVALID_ARG \<longleftrightarrow>
            \<not> (mIsInitialized s \<and> mThread s \<noteq> NOT_RUNNING) \<or> \<not> isValid p) \<and>
         (fst (send s p) = ESP_ERR_INVALID_ARG \<longrightarrow> snd (send s p) = s) \<and>
         (mThread s = NOT_RUNNING \<longrightarrow> send s p = (ESP_ERR_INVALID_ARG, s)) \<and>
         send (setInitialized (Transport_init ad) v) p =
           (ESP_ERR_INVALID_ARG, setInitialized (Transport_init ad) v) \<and>
         (isInitialized s \<and> isValid p \<longrightarrow>
            (fst (send s p) = ESP_ERR_INVALID_STATE \<longleftrightarrow> getQueueSize s = MAX_QUEUE_SIZE) \<and>
            (fst (send s p) = ESP_ERR_INVALID_STATE \<longrightarrow> snd (send s p) = s) \<and>
            (fst (send s p) = ESP_OK \<longleftrightarrow> getQueueSize s < MAX_QUEUE_SIZE) \<and>
            (fst (send s p) = ESP_OK \<longrightarrow>
               snd (send s p) = s\<lparr>mSendQueue := mSendQueue s @ [p]\<rparr>))"
  using assms
  by (auto simp: send_cases err_distinct isInitialized_def getQueueSize_def
      BufferedQueue_waiting_def setInitialized_def Transport_init_def)

theorem send_result_witness:
  "send (Transport_init ()) (Packet_init\<lparr>pkt_size := 4\<rparr>) =
     (ESP_ERR_INVALID_ARG, Transport_init ()) \<and>
   fst (send (snd (start (setInitialized (Transport_init ()) True))) Packet_init) =
     ESP_ERR_INVALID_ARG \<and>
   send (snd (start (setInitialized (Transport_init ()) True))) (Packet_init\<lparr>pkt_size := 4\<rparr>) =
     (ESP_OK, (snd (start (setInitialized (Transport_init ()) True)))
        \<lparr>mSendQueue := [Packet_init\<lparr>pkt_size := 4\<rparr>]\<rparr>)"
  using send_result [of "Transport_init ()" "Packet_init\<lparr>pkt_size := 4\<rparr>" "()" False]
    send_result [of "snd (start (setInitialized (Transport_init ()) True))" Packet_init "()" False]
    send_result [of "snd (start (setInitialized (Transport_init ()) True))"
      "Packet_init\<lparr>pkt_size := 4\<rparr>" "()" False]
  by (simp add: prod_eq_iff start_running setInitialized_def Transport_init_def
      isInitialized_def isValid_def MAX_MTU_def Packet_init_def MAX_QUEUE_SIZE_def
      getQueueSize_def BufferedQueue_waiting_def)

lemma send_each_accepts:
  "isInitialized s \<Longrightarrow> \<forall>p\<in>set ps. isValid p \<Longrightarrow>
   length (mSendQueue s) + length ps \<le> MAX_QUEUE_SIZE \<Longrightarrow>
   send_each s ps = (replicate (length ps) ESP_OK, s\<lparr>mSendQueue := mSendQueue s @ ps\<rparr>)"
proof (induction ps arbitrary: s)
  case Nil
  then show ?case by simp
next
  case (Cons p ps)
  let ?s1 = "s\<lparr>mSendQueue := mSendQueue s @ [p]\<rparr>"
  from Cons.prems have step: "send s p = (ESP_OK, ?s1)"
    by (simp add: send_cases)
  have init: "isInitialized ?s1"
    using Cons.prems(1) by (simp add: isInitialized_def)
  have "send_each ?s1 ps =
      (replicate (length ps) ESP_OK, ?s1\<lparr>mSendQueue := mSendQueue ?s1 @ ps\<rparr>)"
    using Cons.prems by (intro Cons.IH init) simp_all
  with step show ?case by simp
qed

text \<open>
  Claim C4. On an initialised engine with an empty send queue, after \<open>start\<close>, 16
  consecutive calls of \<open>send\<close> with valid packets and no dispatch tick in between all
  return \<open>ESP_OK\<close> and the queue then holds the 16 packets in order; a 17th call with
  a valid packet returns \<open>ESP_ERR_INVALID_STATE\<close> (queue full) and changes nothing.
\<close>

theorem default_capacity:
  assumes "mIsInitialized s0" and "mSendQueue s0 = []"
    and "length ps = 16" and "\<forall>p\<in>set ps. isValid p" and "isValid p17"
  shows "fst (send_each (snd (start s0)) ps) = replicate 16 ESP_OK \<and>
         mSendQueue (snd (send_each (snd (start s0)) ps)) = ps \<and>
         send (snd (send_each (snd (start s0)) ps)) p17 =
           (ESP_ERR_INVALID_STATE, snd (send_each (snd (start s0)) ps))"
proof -
  let ?s = "snd (start s0)"
  have s: "?s = s0\<lparr>mThread := RUNNING\<rparr>" by (simp add: start_running)
  have init: "isInitialized ?s" using assms(1) by (simp add: s isInitialized_def)
  have "send_each ?s ps =
      (replicate (length ps) ESP_OK, ?s\<lparr>mSendQueue := mSendQueue ?s @ ps\<rparr>)"
    using assms by (intro send_each_accepts init) (simp_all add: s MAX_QUEUE_SIZE_def)
  then have each: "send_each ?s ps = (replicate 16 ESP_OK, ?s\<lparr>mSendQueue := ps\<rparr>)"
    using assms(2,3) by (simp add: s)
  have full: "send (?s\<lparr>mSendQueue := ps\<rparr>) p17 =
      (ESP_ERR_INVALID_STATE, ?s\<lparr>mSendQueue := ps\<rparr>)"
    using assms(1,3,5) by (simp add: send_cases s isInitialized_def MAX_QUEUE_SIZE_def)
  show ?thesis
    by (simp add: each full)
qed

theorem default_capacity_witness:
  "fst (send_each (snd (start (setInitialized (Transport_init ()) True)))
          (replicate 16 (Packet_init\<lparr>pkt_size := 1\<rparr>))) = replicate 16 ESP_OK \<and>
   fst (send (snd (send_each (snd (start (setInitialized (Transport_init ()) True)))
          (replicate 16 (Packet_init\<lparr>pkt_size := 1\<rparr>)))) (Packet_init\<lparr>pkt_size := 517\<rparr>)) =
     ESP_ERR_INVALID_STATE"
  using default_capacity [of "setInitialized (Transport_init ()) True"
      "replicate 16 (Packet_init\<lparr>pkt_size := 1\<rparr>)" "Packet_init\<lparr>pkt_size := 517\<rparr>"]
  by (simp add: setInitialized_def Transport_init_def isValid_def MAX_MTU_def Packet_init_def)

section \<open>Properties of the dispatch tick\<close>

lemma interval_us: "(ucast SEND_INTERVAL_US :: 64 word) = 20000"
  by (simp add: SEND_INTERVAL_US_def)

lemma processSendQueue_skip:
  "now1 < mNextSendTime s \<Longrightarrow> processSendQueue sendImpl now1 now2 s = (s, [])"
  by (simp add: processSendQueue_def)

lemma processSendQueue_empty:
  "mSendQueue s = [] \<Longrightarrow> processSendQueue sendImpl now1 now2 s = (s, [])"
  by (simp add: processSendQueue_def BufferedQueue_receive_def)

lemma isTemporary_not_ok: "isTemporary ret \<Longrightarrow> ret \<noteq> ESP_OK"
  by (auto simp: isTemporary_def ESP_OK_def ESP_ERR_NO_MEM_def ESP_ERR_INVALID_STATE_def
      ESP_ERR_TIMEOUT_def)

lemma loop_default:
  "loop sendImpl processReceivedData now1 now2 s = processSendQueue sendImpl now1 now2 s"
  by (simp add: loop_def processReceivedData_def split: prod.splits)

lemma run_skip:
  "\<forall>(t, t') \<in> set ticks. t < mNextSendTime s \<Longrightarrow>
   run sendImpl processReceivedData ticks s = (s, [])"
proof (induction ticks)
  case Nil
  then show ?case by simp
next
  case (Cons tick ticks)
  obtain t t' where tick: "tick = (t, t')" by (cases tick)
  from Cons.prems have "t < mNextSendTime s" by (simp add: tick)
  then have "processSendQueue sendImpl t t' s = (s, [])"
    by (rule processSendQueue_skip)
  moreover from Cons have "run sendImpl processReceivedData ticks s = (s, [])" by simp
  ultimately show ?case by (simp add: tick loop_default)
qed

lemma clearQueue_loop_counts: "clearQueue_loop q n = (n + length q, [])"
proof (induction q arbitrary: n)
  case Nil
  show ?case by (simp add: clearQueue_loop.simps [of "[]"] BufferedQueue_receive_def)
next
  case (Cons p q)
  show ?case
    by (simp add: clearQueue_loop.simps [of "p # q"] BufferedQueue_receive_def Cons.IH)
qed

lemma stop_eq: "stop s = s\<lparr>mSendQueue := [], mThread := NOT_RUNNING\<rparr>"
  by (simp add: stop_def BufferedQueue_reset_def Thread_stop_def)

lemma api_call_queue:
  "length (mSendQueue (api_call_apply s c)) \<le> Suc (length (mSendQueue s)) \<and>
   set (mSendQueue (api_call_apply s c)) \<subseteq> set (mSendQueue s) \<union> {x. c = CallSend x}"
  by (cases c)
    (auto simp: send_cases clearQueue_def clearQueue_loop_counts stop_eq start_running bind_def)

lemma api_calls_queue:
  "length (mSendQueue (foldl api_call_apply s cs)) \<le> length (mSendQueue s) + length cs \<and>
   set (mSendQueue (foldl api_call_apply s cs)) \<subseteq> set (mSendQueue s) \<union> {x. CallSend x \<in> set cs}"
proof (induction cs arbitrary: s)
  case Nil
  show ?case by simp
next
  case (Cons c cs)
  have step: "length (mSendQueue (api_call_apply s c)) \<le> Suc (length (mSendQueue s))"
    "set (mSendQueue (api_call_apply s c)) \<subseteq> set (mSendQueue s) \<union> {x. c = CallSend x}"
    using api_call_queue [of s c] by simp_all
  have rest: "length (mSendQueue (foldl api_call_apply (api_call_apply s c) cs)) \<le>
      length (mSendQueue (api_call_apply s c)) + length cs"
    "set (mSendQueue (foldl api_call_apply (api_call_apply s c) cs)) \<subseteq>
      set (mSendQueue (api_call_apply s c)) \<union> {x. CallSend x \<in> set cs}"
    using Cons.IH [of "api_call_apply s c"] by simp_all
  have "length (mSendQueue (foldl api_call_apply s (c # cs))) \<le>
      length (mSendQueue s) + length (c # cs)"
    using step(1) rest(1) by simp
  moreover have "set (mSendQueue (foldl api_call_apply s (c # cs))) \<subseteq>
      set (mSendQueue s) \<union> {x. CallSend x \<in> set (c # cs)}"
    using step(2) rest(2) by auto
  ultimately show ?case by blast
qed

lemma api_calls_keep:
  "adapter (foldl api_call_apply s cs) = adapter s \<and>
   mNextSendTime (foldl api_call_apply s cs) = mNextSendTime s \<and>
   mIsInitialized (foldl api_call_apply s cs) = mIsInitialized s"
proof (induction cs arbitrary: s)
  case Nil
  show ?case by simp
next
  case (Cons c cs)
  have "adapter (api_call_apply s c) = adapter s \<and>
      mNextSendTime (api_call_apply s c) = mNextSendTime s \<and>
      mIsInitialized (api_call_apply s c) = mIsInitialized s"
    by (cases c)
      (auto simp: send_cases clearQueue_def stop_eq start_running bind_def split_beta)
  with Cons.IH [of "api_call_apply s c"] show ?case by simp
qed

lemma errorCallback_calls_engine:
  "errorCallback_calls (s\<lparr>mSendQueue := q, adapter := ad\<rparr>) packet err =
     errorCallback_calls s packet err"
  by (simp add: errorCallback_calls_def)

lemma processSendQueue_failed:
  assumes "mNextSendTime s \<le> tc" and "mSendQueue s = p # q"
    and "sendImpl (s\<lparr>mSendQueue := q\<rparr>) p = (ret, p', ad)" and "ret \<noteq> ESP_OK"
  shows "processSendQueue sendImpl tc td s =
           (if isTemporary ret
            then (foldl api_call_apply (s\<lparr>mSendQueue := q, adapter := ad\<rparr>)
                    (errorCallback_calls s p' ret))
                 \<lparr>mSendQueue := snd (BufferedQueue_send
                    (mSendQueue (foldl api_call_apply (s\<lparr>mSendQueue := q, adapter := ad\<rparr>)
                       (errorCallback_calls s p' ret))) p')\<rparr>
            else foldl api_call_apply (s\<lparr>mSendQueue := q, adapter := ad\<rparr>)
                    (errorCallback_calls s p' ret),
            SendImpl p ret # (if mErrorCallback s = None then [] else [ErrorCallback p' ret]))"
  using assms
  by (simp add: processSendQueue_def BufferedQueue_receive_def handleSendError_def
      errorCallback_call_def errorCallback_calls_def not_less [symmetric] Let_def
      split: option.splits)

text \<open>
  Claim C1, as the code has it. When the tick is permitted, \<open>p\<close> heads the queue and
  \<open>sendImpl\<close> returns a transient outcome (\<open>isTemporary\<close>), the tick calls \<open>sendImpl\<close>
  once and then the bound error handler, if any, once, with the packet as \<open>sendImpl\<close>
  left it and the outcome. After the handler has returned, the packet is appended to
  the queue as the handler left it, provided there is room, and the tick changes
  nothing else; there is room whenever the packets still queued and the calls the
  handler makes of the engine number less than the capacity, so always when no
  handler is bound or the handler calls nothing. With \<open>p\<close> alone in the queue, a
  handler that calls nothing (or none), and an adapter that leaves the packet as it
  is and returns a transient outcome and then success: two ticks call \<open>sendImpl\<close>
  exactly twice for \<open>p\<close>, the queue ends empty (the packet was sent, not dropped), and
  a bound error handler was called once, for the transient outcome.
\<close>

theorem transient_outcome_requeued_and_reported:
  assumes "mNextSendTime s \<le> tc" and "mSendQueue s = p # q"
    and "length (mSendQueue s) \<le> MAX_QUEUE_SIZE"
    and "sendImpl (s\<lparr>mSendQueue := q\<rparr>) p = (ret, p', ad)" and "isTemporary ret"
  defines "sh \<equiv> foldl api_call_apply (s\<lparr>mSendQueue := q, adapter := ad\<rparr>) (errorCallback_calls s p' ret)"
  shows "snd (processSendQueue sendImpl tc td s) =
           SendImpl p ret # (if mErrorCallback s = None then [] else [ErrorCallback p' ret]) \<and>
         (length (mSendQueue sh) < MAX_QUEUE_SIZE \<longrightarrow>
            fst (processSendQueue sendImpl tc td s) = sh\<lparr>mSendQueue := mSendQueue sh @ [p']\<rparr>) \<and>
         (length q + length (errorCallback_calls s p' ret) < MAX_QUEUE_SIZE \<longrightarrow>
            length (mSendQueue sh) < MAX_QUEUE_SIZE) \<and>
         (errorCallback_calls s p' ret = [] \<longrightarrow>
            fst (processSendQueue sendImpl tc td s) = s\<lparr>mSendQueue := q @ [p'], adapter := ad\<rparr>) \<and>
         (errorCallback_calls s p' ret = [] \<and> q = [] \<and> p' = p \<and> mThread s \<noteq> NOT_RUNNING \<and>
          mNextSendTime s \<le> tc' \<and>
          fst (sendImpl (s\<lparr>mSendQueue := [], adapter := ad\<rparr>) p) = ESP_OK \<longrightarrow>
            snd (run sendImpl processReceivedData [(tc, td), (tc', td')] s) =
              SendImpl p ret # (if mErrorCallback s = None then [] else [ErrorCallback p ret]) @
              [SendImpl p ESP_OK] \<and>
            mSendQueue (fst (run sendImpl processReceivedData [(tc, td), (tc', td')] s)) = [])"
proof (intro conjI impI)
  let ?s1 = "s\<lparr>mSendQueue := q, adapter := ad\<rparr>"
  let ?evs = "SendImpl p ret # (if mErrorCallback s = None then [] else [ErrorCallback p' ret])"
  have tick: "processSendQueue sendImpl tc td s =
      (sh\<lparr>mSendQueue := snd (BufferedQueue_send (mSendQueue sh) p')\<rparr>, ?evs)"
    unfolding sh_def
    using processSendQueue_failed [where sendImpl = sendImpl and s = s and p = p and q = q
        and ret = ret and p' = p' and ad = ad and tc = tc and td = td]
      assms(1,2,4,5) isTemporary_not_ok [OF assms(5)]
    by simp
  show "snd (processSendQueue sendImpl tc td s) = ?evs"
    by (simp add: tick)
  show room: "fst (processSendQueue sendImpl tc td s) = sh\<lparr>mSendQueue := mSendQueue sh @ [p']\<rparr>"
    if "length (mSendQueue sh) < MAX_QUEUE_SIZE"
  proof -
    from that have "snd (BufferedQueue_send (mSendQueue sh) p') = mSendQueue sh @ [p']"
      by (simp add: BufferedQueue_send_def)
    then show ?thesis
      by (simp add: tick)
  qed
  show "length (mSendQueue sh) < MAX_QUEUE_SIZE"
    if "length q + length (errorCallback_calls s p' ret) < MAX_QUEUE_SIZE"
    using that api_calls_queue [of ?s1 "errorCallback_calls s p' ret"]
    unfolding sh_def by simp
  have quiet: "sh = ?s1" if "errorCallback_calls s p' ret = []"
    unfolding sh_def using that by simp
  have short: "length q < MAX_QUEUE_SIZE"
    using assms(2,3) by simp
  show first: "fst (processSendQueue sendImpl tc td s) = s\<lparr>mSendQueue := q @ [p'], adapter := ad\<rparr>"
    if "errorCallback_calls s p' ret = []"
    using room quiet [OF that] short by simp
  assume a: "errorCallback_calls s p' ret = [] \<and> q = [] \<and> p' = p \<and> mThread s \<noteq> NOT_RUNNING \<and>
          mNextSendTime s \<le> tc' \<and>
          fst (sendImpl (s\<lparr>mSendQueue := [], adapter := ad\<rparr>) p) = ESP_OK"
  let ?s2 = "s\<lparr>mSendQueue := [p], adapter := ad\<rparr>"
  let ?evs2 = "SendImpl p ret # (if mErrorCallback s = None then [] else [ErrorCallback p ret])"
  have eq: "?s2\<lparr>mSendQueue := []\<rparr> = s\<lparr>mSendQueue := [], adapter := ad\<rparr>"
    by simp
  obtain p2 ad2 where second: "sendImpl (?s2\<lparr>mSendQueue := []\<rparr>) p = (ESP_OK, p2, ad2)"
    unfolding eq using a by (cases "sendImpl (s\<lparr>mSendQueue := [], adapter := ad\<rparr>) p") auto
  have tick2: "processSendQueue sendImpl tc' td' ?s2 =
      (?s2\<lparr>mSendQueue := [], adapter := ad2, mNextSendTime := td' + 20000\<rparr>,
       [SendImpl p ESP_OK])"
    using a second
    by (simp add: processSendQueue_def BufferedQueue_receive_def interval_us
        not_less [symmetric])
  from a have "errorCallback_calls s p' ret = []"
    by blast
  from first [OF this] have "fst (processSendQueue sendImpl tc td s) = ?s2"
    using a by simp
  moreover have "snd (processSendQueue sendImpl tc td s) = ?evs2"
    using a by (simp add: tick)
  ultimately have tick1: "processSendQueue sendImpl tc td s = (?s2, ?evs2)"
    by (simp add: prod_eq_iff)
  have run_eq: "run sendImpl processReceivedData [(tc, td), (tc', td')] s =
      (?s2\<lparr>mSendQueue := [], adapter := ad2, mNextSendTime := td' + 20000\<rparr>,
       ?evs2 @ [SendImpl p ESP_OK])"
    using a by (simp add: loop_default tick1 tick2)
  show "snd (run sendImpl processReceivedData [(tc, td), (tc', td')] s) =
              SendImpl p ret # (if mErrorCallback s = None then [] else [ErrorCallback p ret]) @
              [SendImpl p ESP_OK]"
    unfolding run_eq by simp
  show "mSendQueue (fst (run sendImpl processReceivedData [(tc, td), (tc', td')] s)) = []"
    unfolding run_eq by simp
qed

text \<open>
  The re-enqueue is not checked. In the same situation, when the handler has left the
  queue full, the tick leaves the engine as the handler left it: the packet is in the
  queue no more. An instance: sixteen packets queued, the first fails with a timeout,
  and the handler sends one packet.
\<close>

lemma transient_outcome_requeue_unchecked:
  assumes "mNextSendTime s \<le> tc" and "mSendQueue s = p # q"
    and "sendImpl (s\<lparr>mSendQueue := q\<rparr>) p = (ret, p', ad)" and "isTemporary ret"
    and "MAX_QUEUE_SIZE \<le> length (mSendQueue (foldl api_call_apply (s\<lparr>mSendQueue := q, adapter := ad\<rparr>)
           (errorCallback_calls s p' ret)))"
  shows "fst (processSendQueue sendImpl tc td s) =
           foldl api_call_apply (s\<lparr>mSendQueue := q, adapter := ad\<rparr>) (errorCallback_calls s p' ret)"
proof -
  let ?sh = "foldl api_call_apply (s\<lparr>mSendQueue := q, adapter := ad\<rparr>) (errorCallback_calls s p' ret)"
  have "snd (BufferedQueue_send (mSendQueue ?sh) p') = mSendQueue ?sh"
    using assms(5) by (simp add: BufferedQueue_send_def)
  then show ?thesis
    using processSendQueue_failed [where sendImpl = sendImpl and s = s and p = p and q = q
        and ret = ret and p' = p' and ad = ad and tc = tc and td = td]
      assms(1,2,3,4) isTemporary_not_ok [OF assms(4)]
    by simp
qed

lemma running_engine_eq:
  "running_engine ad e =
     \<lparr>mThread = RUNNING, mDataCallback = None, mErrorCallback = e, mSendQueue = [],
      mNextSendTime = 0, mIsInitialized = True, adapter = ad\<rparr>"
  by (simp add: running_engine_def start_running setInitialized_def bind_def Transport_init_def)

lemma one_byte_valid: "isValid one_byte"
  by (simp add: one_byte_def isValid_def MAX_MTU_def)

lemma send_one_byte:
  "send (running_engine ad e) one_byte = (ESP_OK, (running_engine ad e)\<lparr>mSendQueue := [one_byte]\<rparr>)"
  by (simp add: send_cases one_byte_valid isInitialized_def running_engine_eq MAX_QUEUE_SIZE_def)

lemma full_queue_sending_handler_example:
  "mSendQueue (fst (processSendQueue scripted_sendImpl 0 0
     ((running_engine [ESP_ERR_TIMEOUT] (Some send_again))
        \<lparr>mSendQueue := map (\<lambda>i. one_byte\<lparr>pkt_id := i\<rparr>)
           [1, 2, 3, 4, 5, 6, 7, 8, 9, 10, 11, 12, 13, 14, 15, 16]\<rparr>))) =
   map (\<lambda>i. one_byte\<lparr>pkt_id := i\<rparr>) [2, 3, 4, 5, 6, 7, 8, 9, 10, 11, 12, 13, 14, 15, 16, 99]"
  by (simp add: running_engine_eq processSendQueue_def BufferedQueue_receive_def
      scripted_sendImpl_def handleSendError_def errorCallback_call_def send_again_def
      send_cases isInitialized_def isValid_def MAX_MTU_def Packet_init_def one_byte_def
      isTemporary_def BufferedQueue_send_def MAX_QUEUE_SIZE_def ESP_OK_def ESP_ERR_TIMEOUT_def)

text \<open>
  Against claim C1 as stated: with an error handler bound and a scripted adapter that
  times out once and then succeeds, the two ticks call the error handler with the
  packet and the timeout between the two calls of \<open>sendImpl\<close>.
\<close>

theorem transient_outcome_reported_counterexample:
  "isTemporary ESP_ERR_TIMEOUT \<and>
   mErrorCallback (running_engine [ESP_ERR_TIMEOUT] (Some log_only)) = Some log_only \<and>
   snd (run scripted_sendImpl processReceivedData [(0, 0), (1, 1)]
          (snd (send (running_engine [ESP_ERR_TIMEOUT] (Some log_only)) one_byte))) =
     [SendImpl one_byte ESP_ERR_TIMEOUT, ErrorCallback one_byte ESP_ERR_TIMEOUT,
      SendImpl one_byte ESP_OK]"
  by (simp add: send_one_byte) (simp add: running_engine_eq loop_default processSendQueue_def
      BufferedQueue_receive_def scripted_sendImpl_def handleSendError_def isTemporary_def
      errorCallback_call_def log_only_def
      BufferedQueue_send_def MAX_QUEUE_SIZE_def ESP_OK_def ESP_ERR_TIMEOUT_def)

theorem transient_outcome_requeued_and_reported_witness:
  "snd (run scripted_sendImpl processReceivedData [(0, 0), (1, 1)]
          (snd (send (running_engine [ESP_ERR_TIMEOUT] (Some log_only)) one_byte))) =
     [SendImpl one_byte ESP_ERR_TIMEOUT, ErrorCallback one_byte ESP_ERR_TIMEOUT,
      SendImpl one_byte ESP_OK] \<and>
   mSendQueue (fst (run scripted_sendImpl processReceivedData [(0, 0), (1, 1)]
          (snd (send (running_engine [ESP_ERR_TIMEOUT] (Some log_only)) one_byte)))) = [] \<and>
   processSendQueue scripted_sendImpl 0 0
     (snd (send (running_engine [ESP_ERR_TIMEOUT] (Some send_again)) one_byte)) =
     ((running_engine [] (Some send_again))
        \<lparr>mSendQueue := [Packet_init\<lparr>pkt_id := 99, pkt_size := 1\<rparr>, one_byte]\<rparr>,
      [SendImpl one_byte ESP_ERR_TIMEOUT, ErrorCallback one_byte ESP_ERR_TIMEOUT]) \<and>
   processSendQueue scripted_sendImpl 0 0
     ((running_engine [ESP_ERR_TIMEOUT] (Some clear_all))
        \<lparr>mSendQueue := [one_byte, one_byte\<lparr>pkt_id := 7\<rparr>]\<rparr>) =
     ((running_engine [] (Some clear_all))\<lparr>mSendQueue := [one_byte]\<rparr>,
      [SendImpl one_byte ESP_ERR_TIMEOUT, ErrorCallback one_byte ESP_ERR_TIMEOUT])"
  using transient_outcome_requeued_and_reported
    [where s = "snd (send (running_engine [ESP_ERR_TIMEOUT] (Some log_only)) one_byte)"
      and tc = 0 and p = one_byte and q = "[]" and sendImpl = scripted_sendImpl
      and ret = ESP_ERR_TIMEOUT and p' = one_byte and ad = "[]" and td = 0 and tc' = 1
      and td' = 1]
    transient_outcome_requeued_and_reported
    [where s = "snd (send (running_engine [ESP_ERR_TIMEOUT] (Some send_again)) one_byte)"
      and tc = 0 and p = one_byte and q = "[]" and sendImpl = scripted_sendImpl
      and ret = ESP_ERR_TIMEOUT and p' = one_byte and ad = "[]" and td = 0]
    transient_outcome_requeued_and_reported
    [where s = "(running_engine [ESP_ERR_TIMEOUT] (Some clear_all))
        \<lparr>mSendQueue := [one_byte, one_byte\<lparr>pkt_id := 7\<rparr>]\<rparr>"
      and tc = 0 and p = one_byte and q = "[one_byte\<lparr>pkt_id := 7\<rparr>]"
      and sendImpl = scripted_sendImpl
      and ret = ESP_ERR_TIMEOUT and p' = one_byte and ad = "[]" and td = 0]
  unfolding send_one_byte
  by (simp add: prod_eq_iff running_engine_eq scripted_sendImpl_def isTemporary_def
      errorCallback_calls_def log_only_def send_again_def clear_all_def send_cases
      clearQueue_def clearQueue_loop_counts isInitialized_def
      isValid_def MAX_MTU_def Packet_init_def
      MAX_QUEUE_SIZE_def ESP_OK_def ESP_ERR_TIMEOUT_def)

lemma run_empty_queue:
  "mSendQueue s = [] \<Longrightarrow> run sendImpl processReceivedData ticks s = (s, [])"
proof (induction ticks)
  case Nil
  then show ?case by simp
next
  case (Cons tick ticks)
  obtain t t' where tick: "tick = (t, t')" by (cases tick)
  from Cons.prems have "processSendQueue sendImpl t t' s = (s, [])"
    by (rule processSendQueue_empty)
  moreover from Cons have "run sendImpl processReceivedData ticks s = (s, [])" by simp
  ultimately show ?case by (simp add: tick loop_default)
qed

lemma fatal_tick:
  assumes "mNextSendTime s \<le> tc" and "mSendQueue s = p # q"
    and "sendImpl (s\<lparr>mSendQueue := q\<rparr>) p = (ret, p', ad)"
    and "ret \<noteq> ESP_OK" and "\<not> isTemporary ret"
  defines "sh \<equiv> foldl api_call_apply (s\<lparr>mSendQueue := q, adapter := ad\<rparr>) (errorCallback_calls s p' ret)"
  shows "processSendQueue sendImpl tc td s =
           (sh, SendImpl p ret # (if mErrorCallback s = None then [] else [ErrorCallback p' ret]))"
    and "set (mSendQueue sh) \<subseteq> set q \<union> {x. CallSend x \<in> set (errorCallback_calls s p' ret)}"
    and "adapter sh = ad \<and> mNextSendTime sh = mNextSendTime s \<and> mIsInitialized sh = mIsInitialized s"
    and "errorCallback_calls s p' ret = [] \<Longrightarrow> sh = s\<lparr>mSendQueue := q, adapter := ad\<rparr>"
proof -
  let ?s1 = "s\<lparr>mSendQueue := q, adapter := ad\<rparr>"
  show "processSendQueue sendImpl tc td s =
      (sh, SendImpl p ret # (if mErrorCallback s = None then [] else [ErrorCallback p' ret]))"
    unfolding sh_def
    using processSendQueue_failed [where sendImpl = sendImpl and s = s and p = p and q = q
        and ret = ret and p' = p' and ad = ad and tc = tc and td = td]
      assms(1,2,3,4,5)
    by simp
  show "set (mSendQueue sh) \<subseteq> set q \<union> {x. CallSend x \<in> set (errorCallback_calls s p' ret)}"
    using api_calls_queue [of ?s1 "errorCallback_calls s p' ret"]
    unfolding sh_def by simp
  show "adapter sh = ad \<and> mNextSendTime sh = mNextSendTime s \<and> mIsInitialized sh = mIsInitialized s"
    using api_calls_keep [of ?s1 "errorCallback_calls s p' ret"]
    unfolding sh_def by simp
  show "sh = ?s1" if "errorCallback_calls s p' ret = []"
    unfolding sh_def using that by simp
qed

text \<open>
  Claim C2. When the tick is permitted, \<open>p\<close> heads the queue and \<open>sendImpl\<close> returns
  an outcome that is neither \<open>ESP_OK\<close> nor transient, the tick calls \<open>sendImpl\<close> once
  and the bound error handler, if any, exactly once, with the packet as \<open>sendImpl\<close>
  left it and the outcome. The packet is removed from the queue and the engine does
  not append it again: the tick leaves the engine as the handler left it, so every
  packet then in the queue was behind \<open>p\<close> or was passed to \<open>send\<close> by the handler
  itself. When no handler is bound or the handler calls nothing of the engine, the
  queue is exactly the packets that were behind \<open>p\<close>, and nothing else changes but
  the adapter's own state; then, with \<open>p\<close> alone in the queue, no later tick calls
  \<open>sendImpl\<close> or the handler again.
\<close>

theorem fatal_outcome_dropped_and_reported:
  assumes "mNextSendTime s \<le> tc" and "mSendQueue s = p # q"
    and "sendImpl (s\<lparr>mSendQueue := q\<rparr>) p = (ret, p', ad)"
    and "ret \<noteq> ESP_OK" and "\<not> isTemporary ret"
  defines "sh \<equiv> foldl api_call_apply (s\<lparr>mSendQueue := q, adapter := ad\<rparr>) (errorCallback_calls s p' ret)"
  shows "processSendQueue sendImpl tc td s =
           (sh, SendImpl p ret # (if mErrorCallback s = None then [] else [ErrorCallback p' ret])) \<and>
         set (mSendQueue sh) \<subseteq> set q \<union> {x. CallSend x \<in> set (errorCallback_calls s p' ret)} \<and>
         adapter sh = ad \<and> mNextSendTime sh = mNextSendTime s \<and>
         (errorCallback_calls s p' ret = [] \<longrightarrow>
            processSendQueue sendImpl tc td s =
              (s\<lparr>mSendQueue := q, adapter := ad\<rparr>,
               SendImpl p ret # (if mErrorCallback s = None then [] else [ErrorCallback p' ret]))) \<and>
         (errorCallback_calls s p' ret = [] \<and> q = [] \<and> mThread s \<noteq> NOT_RUNNING \<longrightarrow>
            run sendImpl processReceivedData ((tc, td) # ticks) s =
              (s\<lparr>mSendQueue := [], adapter := ad\<rparr>,
               SendImpl p ret # (if mErrorCallback s = None then [] else [ErrorCallback p' ret])))"
proof (intro conjI impI)
  let ?evs = "SendImpl p ret # (if mErrorCallback s = None then [] else [ErrorCallback p' ret])"
  note tick = fatal_tick [where sendImpl = sendImpl and s = s and p = p and q = q
      and ret = ret and p' = p' and ad = ad and tc = tc, OF assms(1-5)]
  show "processSendQueue sendImpl tc td s = (sh, ?evs)"
    unfolding sh_def by (rule tick(1))
  show "set (mSendQueue sh) \<subseteq> set q \<union> {x. CallSend x \<in> set (errorCallback_calls s p' ret)}"
    unfolding sh_def by (rule tick(2))
  show "adapter sh = ad" "mNextSendTime sh = mNextSendTime s"
    unfolding sh_def using tick(3) by simp_all
  show dropped: "processSendQueue sendImpl tc td s = (s\<lparr>mSendQueue := q, adapter := ad\<rparr>, ?evs)"
    if "errorCallback_calls s p' ret = []"
    using tick(1) tick(4) [OF that] by simp
  assume a: "errorCallback_calls s p' ret = [] \<and> q = [] \<and> mThread s \<noteq> NOT_RUNNING"
  let ?s2 = "s\<lparr>mSendQueue := [], adapter := ad\<rparr>"
  have rest: "run sendImpl processReceivedData ticks ?s2 = (?s2, [])"
    by (rule run_empty_queue) simp
  from a have "errorCallback_calls s p' ret = []"
    by blast
  from dropped [OF this] a have "processSendQueue sendImpl tc td s = (?s2, ?evs)"
    by simp
  with a rest show "run sendImpl processReceivedData ((tc, td) # ticks) s = (?s2, ?evs)"
    by (simp add: loop_default)
qed

theorem fatal_outcome_dropped_and_reported_witness:
  "\<not> isTemporary ESP_FAIL \<and>
   run scripted_sendImpl processReceivedData [(0, 0), (1, 1), (2, 2)]
     (snd (send (running_engine [ESP_FAIL] (Some log_only)) one_byte)) =
     (running_engine [] (Some log_only),
      [SendImpl one_byte ESP_FAIL, ErrorCallback one_byte ESP_FAIL]) \<and>
   processSendQueue scripted_sendImpl 0 0
     (snd (send (running_engine [ESP_FAIL] (Some send_again)) one_byte)) =
     ((running_engine [] (Some send_again))
        \<lparr>mSendQueue := [Packet_init\<lparr>pkt_id := 99, pkt_size := 1\<rparr>]\<rparr>,
      [SendImpl one_byte ESP_FAIL, ErrorCallback one_byte ESP_FAIL])"
  using fatal_outcome_dropped_and_reported
    [where s = "snd (send (running_engine [ESP_FAIL] (Some log_only)) one_byte)" and tc = 0
      and p = one_byte and q = "[]" and sendImpl = scripted_sendImpl
      and ret = ESP_FAIL and p' = one_byte and ad = "[]" and td = 0
      and ticks = "[(1, 1), (2, 2)]"]
    fatal_outcome_dropped_and_reported
    [where s = "snd (send (running_engine [ESP_FAIL] (Some send_again)) one_byte)" and tc = 0
      and p = one_byte and q = "[]" and sendImpl = scripted_sendImpl
      and ret = ESP_FAIL and p' = one_byte and ad = "[]" and td = 0]
  unfolding send_one_byte
  by (simp add: running_engine_eq scripted_sendImpl_def isTemporary_def
      errorCallback_calls_def log_only_def send_again_def send_cases isInitialized_def
      isValid_def MAX_MTU_def Packet_init_def MAX_QUEUE_SIZE_def
      ESP_OK_def ESP_FAIL_def ESP_ERR_TIMEOUT_def ESP_ERR_NO_MEM_def ESP_ERR_INVALID_STATE_def)

section \<open>Stopping the engine\<close>

lemma run_not_running: "mThread s = NOT_RUNNING \<Longrightarrow> run sendImpl recv ticks s = (s, [])"
  by (cases ticks) auto

text \<open>
  Claim C8. After \<open>stop\<close> the send queue is empty and the thread is not running, so
  no dispatch tick runs; a second \<open>stop\<close> changes nothing; \<open>clearQueue\<close> after
  \<open>stop\<close> (once or twice) returns 0 and changes nothing. \<open>stop\<close> is taken as one
  step: no tick of the worker runs between its two statements.
\<close>

theorem stop_drains_and_halts:
  "mSendQueue (stop s) = [] \<and> getQueueSize (stop s) = 0 \<and>
   mThread (stop s) = NOT_RUNNING \<and>
   run sendImpl recv ticks (stop s) = (stop s, []) \<and>
   stop (stop s) = stop s \<and>
   clearQueue (stop s) = (0, stop s) \<and>
   clearQueue (stop (stop s)) = (0, stop s)"
proof -
  have halted: "run sendImpl recv ticks (stop s) = (stop s, [])"
    by (rule run_not_running) (simp add: stop_eq)
  have twice: "stop (stop s) = stop s"
    by (simp add: stop_eq)
  have drained: "clearQueue (stop s) = (0, stop s)"
    by (simp add: clearQueue_def clearQueue_loop_counts stop_eq)
  show ?thesis
    using halted drained
    by (simp add: twice) (simp add: stop_eq getQueueSize_def BufferedQueue_waiting_def)
qed

theorem stop_drains_and_halts_witness:
  "getQueueSize (snd (send (running_engine () None) one_byte)) = 1 \<and>
   getQueueSize (stop (snd (send (running_engine () None) one_byte))) = 0 \<and>
   fst (clearQueue (stop (snd (send (running_engine () None) one_byte)))) = 0 \<and>
   stop (stop (snd (send (running_engine () None) one_byte))) =
     stop (snd (send (running_engine () None) one_byte))"
  using stop_drains_and_halts [of "snd (send (running_engine () None) one_byte)"]
  by (simp add: send_one_byte getQueueSize_def BufferedQueue_waiting_def)

section \<open>Rate limiting\<close>

lemma unat_plus_interval:
  "unat (td :: 64 word) + 20000 < 2 ^ 64 \<Longrightarrow> unat (td + 20000) = unat td + 20000"
  using unat_add_lem [of td "20000 :: 64 word"] by simp

lemma run_before_interval:
  assumes "unat td + 20000 < 2 ^ 64" and "mNextSendTime s = td + 20000"
    and "\<forall>(t, t') \<in> set ticks. unat t < unat td + 20000"
  shows "run sendImpl processReceivedData ticks s = (s, [])"
proof (rule run_skip)
  show "\<forall>(t, t') \<in> set ticks. t < mNextSendTime s"
    using assms(3) by (auto simp: assms(2) word_less_nat_alt unat_plus_interval [OF assms(1)])
qed

text \<open>
  Claim C5. A tick whose clock reading \<open>tc\<close> is earlier than the next-send time does
  nothing in its send phase. A permitted tick whose \<open>sendImpl\<close> succeeds sets the
  next-send time to \<open>td + 20000\<close> microseconds, \<open>td\<close> being the clock reading taken
  after \<open>sendImpl\<close> returned. So, with two packets queued and an adapter that always
  succeeds, once the first has been sent at \<open>(tc, td)\<close>, the ticks whose clock reading is
  earlier than \<open>td + 20000\<close> call \<open>sendImpl\<close> no more and leave the second packet at
  the head of the queue; a tick at or after \<open>td + 20000\<close> sends it. Times are
  microseconds since boot, with \<open>td + 20000\<close> below \<open>2 ^ 64\<close>.
\<close>

theorem rate_limit:
  "(tc < mNextSendTime s \<longrightarrow> processSendQueue sendImpl tc td s = (s, [])) \<and>
   (mNextSendTime s \<le> tc \<and> mSendQueue s = p # q \<and>
    fst (sendImpl (s\<lparr>mSendQueue := q\<rparr>) p) = ESP_OK \<longrightarrow>
      mNextSendTime (fst (processSendQueue sendImpl tc td s)) = td + 20000 \<and>
      snd (processSendQueue sendImpl tc td s) = [SendImpl p ESP_OK]) \<and>
   (mThread s \<noteq> NOT_RUNNING \<and> mNextSendTime s \<le> tc \<and> mSendQueue s = p # p' # q \<and>
    (\<forall>s' x. fst (sendImpl s' x) = ESP_OK) \<and> unat td + 20000 < 2 ^ 64 \<and>
    (\<forall>(t, t') \<in> set ticks. unat t < unat td + 20000) \<longrightarrow>
      snd (run sendImpl processReceivedData ((tc, td) # ticks) s) = [SendImpl p ESP_OK] \<and>
      mSendQueue (fst (run sendImpl processReceivedData ((tc, td) # ticks) s)) = p' # q \<and>
      (unat td + 20000 \<le> unat tc' \<longrightarrow>
         snd (processSendQueue sendImpl tc' td'
                (fst (run sendImpl processReceivedData ((tc, td) # ticks) s))) =
           [SendImpl p' ESP_OK]))"
proof (intro conjI impI)
  assume "tc < mNextSendTime s"
  then show "processSendQueue sendImpl tc td s = (s, [])"
    by (rule processSendQueue_skip)
next
  assume a: "mNextSendTime s \<le> tc \<and> mSendQueue s = p # q \<and>
    fst (sendImpl (s\<lparr>mSendQueue := q\<rparr>) p) = ESP_OK"
  obtain x ad where "sendImpl (s\<lparr>mSendQueue := q\<rparr>) p = (ESP_OK, x, ad)"
    using a by (cases "sendImpl (s\<lparr>mSendQueue := q\<rparr>) p") auto
  with a have tick: "processSendQueue sendImpl tc td s =
      (s\<lparr>mSendQueue := q, adapter := ad, mNextSendTime := td + 20000\<rparr>, [SendImpl p ESP_OK])"
    by (simp add: processSendQueue_def BufferedQueue_receive_def interval_us
        not_less [symmetric])
  show "mNextSendTime (fst (processSendQueue sendImpl tc td s)) = td + 20000"
    by (simp add: tick)
  show "snd (processSendQueue sendImpl tc td s) = [SendImpl p ESP_OK]"
    by (simp add: tick)
next
  assume a: "mThread s \<noteq> NOT_RUNNING \<and> mNextSendTime s \<le> tc \<and> mSendQueue s = p # p' # q \<and>
    (\<forall>s' x. fst (sendImpl s' x) = ESP_OK) \<and> unat td + 20000 < 2 ^ 64 \<and>
    (\<forall>(t, t') \<in> set ticks. unat t < unat td + 20000)"
  from a have always: "fst (sendImpl s' x) = ESP_OK" for s' x
    by blast
  obtain x ad where "sendImpl (s\<lparr>mSendQueue := p' # q\<rparr>) p = (ESP_OK, x, ad)"
    using always [of "s\<lparr>mSendQueue := p' # q\<rparr>" p]
    by (cases "sendImpl (s\<lparr>mSendQueue := p' # q\<rparr>) p") auto
  let ?s1 = "s\<lparr>mSendQueue := p' # q, adapter := ad, mNextSendTime := td + 20000\<rparr>"
  have tick: "processSendQueue sendImpl tc td s = (?s1, [SendImpl p ESP_OK])"
    using a \<open>sendImpl (s\<lparr>mSendQueue := p' # q\<rparr>) p = (ESP_OK, x, ad)\<close>
    by (simp add: processSendQueue_def BufferedQueue_receive_def interval_us
        not_less [symmetric])
  have idle: "run sendImpl processReceivedData ticks ?s1 = (?s1, [])"
    using a by (intro run_before_interval [of td]) simp_all
  have run_eq: "run sendImpl processReceivedData ((tc, td) # ticks) s = (?s1, [SendImpl p ESP_OK])"
    using a by (simp add: loop_default tick idle)
  show "snd (run sendImpl processReceivedData ((tc, td) # ticks) s) = [SendImpl p ESP_OK]"
    unfolding run_eq by simp
  show "mSendQueue (fst (run sendImpl processReceivedData ((tc, td) # ticks) s)) = p' # q"
    unfolding run_eq by simp
  show "snd (processSendQueue sendImpl tc' td'
                (fst (run sendImpl processReceivedData ((tc, td) # ticks) s))) =
           [SendImpl p' ESP_OK]" if late: "unat td + 20000 \<le> unat tc'"
  proof -
    have le: "td + 20000 \<le> tc'"
      using late a by (simp add: word_le_nat_alt unat_plus_interval)
    obtain y ad' where second: "sendImpl (?s1\<lparr>mSendQueue := q\<rparr>) p' = (ESP_OK, y, ad')"
      using always [of "?s1\<lparr>mSendQueue := q\<rparr>" p']
      by (cases "sendImpl (?s1\<lparr>mSendQueue := q\<rparr>) p'") auto
    show ?thesis
      unfolding run_eq using le second
      by (simp add: processSendQueue_def BufferedQueue_receive_def interval_us
          not_less [symmetric])
  qed
qed


lemma send_two:
  "send_each (running_engine ad e) [one_byte, one_byte\<lparr>pkt_id := 7\<rparr>] =
     ([ESP_OK, ESP_OK], (running_engine ad e)\<lparr>mSendQueue := [one_byte, one_byte\<lparr>pkt_id := 7\<rparr>]\<rparr>)"
  by (simp add: send_cases isInitialized_def running_engine_eq MAX_QUEUE_SIZE_def
      one_byte_def isValid_def MAX_MTU_def)

theorem rate_limit_witness:
  "snd (run succeeding_sendImpl processReceivedData [(0, 5), (10, 12), (20004, 20004)]
          (snd (send_each (running_engine () None) [one_byte, one_byte\<lparr>pkt_id := 7\<rparr>]))) =
     [SendImpl one_byte ESP_OK] \<and>
   snd (processSendQueue succeeding_sendImpl 20005 20010
          (fst (run succeeding_sendImpl processReceivedData [(0, 5), (10, 12), (20004, 20004)]
             (snd (send_each (running_engine () None) [one_byte, one_byte\<lparr>pkt_id := 7\<rparr>]))))) =
     [SendImpl (one_byte\<lparr>pkt_id := 7\<rparr>) ESP_OK] \<and>
   processSendQueue succeeding_sendImpl 10 12
     ((running_engine () None)\<lparr>mSendQueue := [one_byte], mNextSendTime := 20005\<rparr>) =
     ((running_engine () None)\<lparr>mSendQueue := [one_byte], mNextSendTime := 20005\<rparr>, [])"
  using rate_limit
    [where s = "snd (send_each (running_engine () None) [one_byte, one_byte\<lparr>pkt_id := 7\<rparr>])"
      and tc = 0 and td = 5 and p = one_byte and p' = "one_byte\<lparr>pkt_id := 7\<rparr>" and q = "[]"
      and sendImpl = succeeding_sendImpl and ticks = "[(10, 12), (20004, 20004)]"
      and tc' = 20005 and td' = 20010]
    rate_limit
    [where s = "(running_engine () None)\<lparr>mSendQueue := [one_byte], mNextSendTime := 20005\<rparr>"
      and tc = 10 and td = 12 and sendImpl = succeeding_sendImpl]
  unfolding send_two
  by (simp add: running_engine_eq succeeding_sendImpl_def)

section \<open>The serial channels\<close>

lemma ESP_FAIL_fatal: "\<not> isTemporary ESP_FAIL" "ESP_FAIL \<noteq> ESP_OK"
  by (simp_all add: isTemporary_def ESP_FAIL_def ESP_OK_def ESP_ERR_NO_MEM_def
      ESP_ERR_INVALID_STATE_def ESP_ERR_TIMEOUT_def)

lemma Uart_write_queue: "Uart_write (s\<lparr>mSendQueue := q\<rparr>) data = Uart_write s data"
  by (simp add: Uart_write_def isInitialized_def)

lemma UsbJtag_write_queue: "UsbJtag_write (s\<lparr>mSendQueue := q\<rparr>) data = UsbJtag_write s data"
  by (simp add: UsbJtag_write_def isInitialized_def)

lemma Uart_tick_failed:
  assumes "mNextSendTime s \<le> tc" and "mSendQueue s = p # q"
    and "Uart_write s (take (unat (pkt_size p)) (buffer p)) \<noteq> unat (pkt_size p)"
  defines "sh \<equiv> foldl api_call_apply (s\<lparr>mSendQueue := q\<rparr>) (errorCallback_calls s p ESP_FAIL)"
  shows "processSendQueue Uart_sendImpl tc td s =
           (sh, SendImpl p ESP_FAIL #
                (if mErrorCallback s = None then [] else [ErrorCallback p ESP_FAIL]))"
    and "set (mSendQueue sh) \<subseteq> set q \<union> {x. CallSend x \<in> set (errorCallback_calls s p ESP_FAIL)}"
    and "errorCallback_calls s p ESP_FAIL = [] \<Longrightarrow> sh = s\<lparr>mSendQueue := q\<rparr>"
proof -
  have failed: "Uart_sendImpl (s\<lparr>mSendQueue := q\<rparr>) p = (ESP_FAIL, p, adapter s)"
    using assms(3) by (simp add: Uart_sendImpl_def Uart_write_queue)
  have same: "s\<lparr>mSendQueue := q, adapter := adapter s\<rparr> = s\<lparr>mSendQueue := q\<rparr>"
    by simp
  note tick = fatal_tick [where sendImpl = Uart_sendImpl and s = s and p = p and q = q
      and ret = ESP_FAIL and p' = p and ad = "adapter s" and tc = tc,
      OF assms(1,2) failed ESP_FAIL_fatal(2) ESP_FAIL_fatal(1), unfolded same]
  show "processSendQueue Uart_sendImpl tc td s =
           (sh, SendImpl p ESP_FAIL #
                (if mErrorCallback s = None then [] else [ErrorCallback p ESP_FAIL]))"
    unfolding sh_def by (rule tick(1))
  show "set (mSendQueue sh) \<subseteq> set q \<union> {x. CallSend x \<in> set (errorCallback_calls s p ESP_FAIL)}"
    unfolding sh_def by (rule tick(2))
  show "sh = s\<lparr>mSendQueue := q\<rparr>" if "errorCallback_calls s p ESP_FAIL = []"
    unfolding sh_def using tick(4) [OF that] .
qed

lemma UsbJtag_tick_failed:
  assumes "mNextSendTime s \<le> tc" and "mSendQueue s = p # q"
    and "UsbJtag_write s (take (unat (pkt_size p)) (buffer p)) \<noteq> unat (pkt_size p)"
  defines "sh \<equiv> foldl api_call_apply (s\<lparr>mSendQueue := q\<rparr>) (errorCallback_calls s p ESP_FAIL)"
  shows "processSendQueue UsbJtag_sendImpl tc td s =
           (sh, SendImpl p ESP_FAIL #
                (if mErrorCallback s = None then [] else [ErrorCallback p ESP_FAIL]))"
    and "set (mSendQueue sh) \<subseteq> set q \<union> {x. CallSend x \<in> set (errorCallback_calls s p ESP_FAIL)}"
    and "errorCallback_calls s p ESP_FAIL = [] \<Longrightarrow> sh = s\<lparr>mSendQueue := q\<rparr>"
proof -
  have failed: "UsbJtag_sendImpl (s\<lparr>mSendQueue := q\<rparr>) p = (ESP_FAIL, p, adapter s)"
    using assms(3) by (simp add: UsbJtag_sendImpl_def UsbJtag_write_queue)
  have same: "s\<lparr>mSendQueue := q, adapter := adapter s\<rparr> = s\<lparr>mSendQueue := q\<rparr>"
    by simp
  note tick = fatal_tick [where sendImpl = UsbJtag_sendImpl and s = s and p = p and q = q
      and ret = ESP_FAIL and p' = p and ad = "adapter s" and tc = tc,
      OF assms(1,2) failed ESP_FAIL_fatal(2) ESP_FAIL_fatal(1), unfolded same]
  show "processSendQueue UsbJtag_sendImpl tc td s =
           (sh, SendImpl p ESP_FAIL #
                (if mErrorCallback s = None then [] else [ErrorCallback p ESP_FAIL]))"
    unfolding sh_def by (rule tick(1))
  show "set (mSendQueue sh) \<subseteq> set q \<union> {x. CallSend x \<in> set (errorCallback_calls s p ESP_FAIL)}"
    unfolding sh_def by (rule tick(2))
  show "sh = s\<lparr>mSendQueue := q\<rparr>" if "errorCallback_calls s p ESP_FAIL = []"
    unfolding sh_def using tick(4) [OF that] .
qed

text \<open>
  Claim C9. \<open>Uart::sendImpl\<close> and \<open>UsbJtag::sendImpl\<close> return \<open>ESP_OK\<close> exactly when
  \<open>write\<close> reports all \<open>size\<close> bytes of the packet written, and \<open>ESP_FAIL\<close> exactly
  when it does not. \<open>ESP_FAIL\<close> is not transient, so a permitted tick whose write is
  failed or partial removes the packet from the queue and the engine does not append
  it again: the bound error handler, if any, is called with \<open>ESP_FAIL\<close>, and the
  tick leaves the engine as the handler left it, so every packet then in the queue
  was behind the failed one or was passed to \<open>send\<close> by the handler itself. When no
  handler is bound or the handler calls nothing of the engine, the queue is exactly
  the packets that were behind the failed one and nothing else changes.
\<close>

theorem serial_send_failure_is_fatal:
  fixes s :: "uart_driver transport" and u :: "usb_driver transport"
    and p :: packet and q :: "packet list"
  defines "shs \<equiv> foldl api_call_apply (s\<lparr>mSendQueue := q\<rparr>) (errorCallback_calls s p ESP_FAIL)"
    and "shu \<equiv> foldl api_call_apply (u\<lparr>mSendQueue := q\<rparr>) (errorCallback_calls u p ESP_FAIL)"
  shows
  "(fst (Uart_sendImpl s p) = ESP_OK \<longleftrightarrow>
      Uart_write s (take (unat (pkt_size p)) (buffer p)) = unat (pkt_size p)) \<and>
   (fst (Uart_sendImpl s p) = ESP_FAIL \<longleftrightarrow>
      Uart_write s (take (unat (pkt_size p)) (buffer p)) \<noteq> unat (pkt_size p)) \<and>
   (fst (UsbJtag_sendImpl u p) = ESP_OK \<longleftrightarrow>
      UsbJtag_write u (take (unat (pkt_size p)) (buffer p)) = unat (pkt_size p)) \<and>
   (fst (UsbJtag_sendImpl u p) = ESP_FAIL \<longleftrightarrow>
      UsbJtag_write u (take (unat (pkt_size p)) (buffer p)) \<noteq> unat (pkt_size p)) \<and>
   \<not> isTemporary ESP_FAIL \<and>
   (mNextSendTime s \<le> tc \<and> mSendQueue s = p # q \<and>
    Uart_write s (take (unat (pkt_size p)) (buffer p)) \<noteq> unat (pkt_size p) \<longrightarrow>
      processSendQueue Uart_sendImpl tc td s =
        (shs, SendImpl p ESP_FAIL #
              (if mErrorCallback s = None then [] else [ErrorCallback p ESP_FAIL])) \<and>
      set (mSendQueue shs) \<subseteq> set q \<union> {x. CallSend x \<in> set (errorCallback_calls s p ESP_FAIL)} \<and>
      (errorCallback_calls s p ESP_FAIL = [] \<longrightarrow>
         processSendQueue Uart_sendImpl tc td s =
           (s\<lparr>mSendQueue := q\<rparr>,
            SendImpl p ESP_FAIL #
            (if mErrorCallback s = None then [] else [ErrorCallback p ESP_FAIL])))) \<and>
   (mNextSendTime u \<le> tc \<and> mSendQueue u = p # q \<and>
    UsbJtag_write u (take (unat (pkt_size p)) (buffer p)) \<noteq> unat (pkt_size p) \<longrightarrow>
      processSendQueue UsbJtag_sendImpl tc td u =
        (shu, SendImpl p ESP_FAIL #
              (if mErrorCallback u = None then [] else [ErrorCallback p ESP_FAIL])) \<and>
      set (mSendQueue shu) \<subseteq> set q \<union> {x. CallSend x \<in> set (errorCallback_calls u p ESP_FAIL)} \<and>
      (errorCallback_calls u p ESP_FAIL = [] \<longrightarrow>
         processSendQueue UsbJtag_sendImpl tc td u =
           (u\<lparr>mSendQueue := q\<rparr>,
            SendImpl p ESP_FAIL #
            (if mErrorCallback u = None then [] else [ErrorCallback p ESP_FAIL]))))"
proof (intro conjI impI)
  show "fst (Uart_sendImpl s p) = ESP_OK \<longleftrightarrow>
      Uart_write s (take (unat (pkt_size p)) (buffer p)) = unat (pkt_size p)"
    by (simp add: Uart_sendImpl_def ESP_FAIL_fatal)
  show "fst (Uart_sendImpl s p) = ESP_FAIL \<longleftrightarrow>
      Uart_write s (take (unat (pkt_size p)) (buffer p)) \<noteq> unat (pkt_size p)"
    using ESP_FAIL_fatal(2) by (auto simp: Uart_sendImpl_def)
  show "fst (UsbJtag_sendImpl u p) = ESP_OK \<longleftrightarrow>
      UsbJtag_write u (take (unat (pkt_size p)) (buffer p)) = unat (pkt_size p)"
    by (simp add: UsbJtag_sendImpl_def ESP_FAIL_fatal)
  show "fst (UsbJtag_sendImpl u p) = ESP_FAIL \<longleftrightarrow>
      UsbJtag_write u (take (unat (pkt_size p)) (buffer p)) \<noteq> unat (pkt_size p)"
    using ESP_FAIL_fatal(2) by (auto simp: UsbJtag_sendImpl_def)
  show "\<not> isTemporary ESP_FAIL"
    by (rule ESP_FAIL_fatal)
next
  assume a: "mNextSendTime s \<le> tc \<and> mSendQueue s = p # q \<and>
    Uart_write s (take (unat (pkt_size p)) (buffer p)) \<noteq> unat (pkt_size p)"
  then have pre: "mNextSendTime s \<le> tc" "mSendQueue s = p # q"
    "Uart_write s (take (unat (pkt_size p)) (buffer p)) \<noteq> unat (pkt_size p)"
    by simp_all
  note tick = Uart_tick_failed [OF pre]
  show "processSendQueue Uart_sendImpl tc td s =
        (shs, SendImpl p ESP_FAIL #
              (if mErrorCallback s = None then [] else [ErrorCallback p ESP_FAIL]))"
    unfolding shs_def by (rule tick(1))
  show "set (mSendQueue shs) \<subseteq> set q \<union> {x. CallSend x \<in> set (errorCallback_calls s p ESP_FAIL)}"
    unfolding shs_def by (rule tick(2))
  show "processSendQueue Uart_sendImpl tc td s =
           (s\<lparr>mSendQueue := q\<rparr>,
            SendImpl p ESP_FAIL #
            (if mErrorCallback s = None then [] else [ErrorCallback p ESP_FAIL]))"
    if "errorCallback_calls s p ESP_FAIL = []"
    using tick(1) [of td] tick(3) [OF that] by simp
next
  assume a: "mNextSendTime u \<le> tc \<and> mSendQueue u = p # q \<and>
    UsbJtag_write u (take (unat (pkt_size p)) (buffer p)) \<noteq> unat (pkt_size p)"
  then have pre: "mNextSendTime u \<le> tc" "mSendQueue u = p # q"
    "UsbJtag_write u (take (unat (pkt_size p)) (buffer p)) \<noteq> unat (pkt_size p)"
    by simp_all
  note tick = UsbJtag_tick_failed [OF pre]
  show "processSendQueue UsbJtag_sendImpl tc td u =
        (shu, SendImpl p ESP_FAIL #
              (if mErrorCallback u = None then [] else [ErrorCallback p ESP_FAIL]))"
    unfolding shu_def by (rule tick(1))
  show "set (mSendQueue shu) \<subseteq> set q \<union> {x. CallSend x \<in> set (errorCallback_calls u p ESP_FAIL)}"
    unfolding shu_def by (rule tick(2))
  show "processSendQueue UsbJtag_sendImpl tc td u =
           (u\<lparr>mSendQueue := q\<rparr>,
            SendImpl p ESP_FAIL #
            (if mErrorCallback u = None then [] else [ErrorCallback p ESP_FAIL]))"
    if "errorCallback_calls u p ESP_FAIL = []"
    using tick(1) [of td] tick(3) [OF that] by simp
qed

lemma send_three:
  "send (running_engine ad e) (Packet_init\<lparr>pkt_size := 3\<rparr>) =
     (ESP_OK, (running_engine ad e)\<lparr>mSendQueue := [Packet_init\<lparr>pkt_size := 3\<rparr>]\<rparr>)"
  by (simp add: send_cases isInitialized_def running_engine_eq MAX_QUEUE_SIZE_def
      isValid_def MAX_MTU_def Packet_init_def)

theorem serial_send_failure_is_fatal_witness:
  "processSendQueue Uart_sendImpl 0 0
     (snd (send (running_engine test_uart (Some log_only)) (Packet_init\<lparr>pkt_size := 3\<rparr>))) =
     (running_engine test_uart (Some log_only),
      [SendImpl (Packet_init\<lparr>pkt_size := 3\<rparr>) ESP_FAIL,
       ErrorCallback (Packet_init\<lparr>pkt_size := 3\<rparr>) ESP_FAIL]) \<and>
   processSendQueue UsbJtag_sendImpl 0 0
     (snd (send (running_engine test_usb (Some log_only)) (Packet_init\<lparr>pkt_size := 3\<rparr>))) =
     (running_engine test_usb (Some log_only),
      [SendImpl (Packet_init\<lparr>pkt_size := 3\<rparr>) ESP_FAIL,
       ErrorCallback (Packet_init\<lparr>pkt_size := 3\<rparr>) ESP_FAIL])"
  using serial_send_failure_is_fatal
    [where s = "snd (send (running_engine test_uart (Some log_only)) (Packet_init\<lparr>pkt_size := 3\<rparr>))"
      and u = "snd (send (running_engine test_usb (Some log_only)) (Packet_init\<lparr>pkt_size := 3\<rparr>))"
      and p = "Packet_init\<lparr>pkt_size := 3\<rparr>" and q = "[]" and tc = 0 and td = 0]
  unfolding send_three
  by (simp add: running_engine_eq Uart_write_def UsbJtag_write_def isInitialized_def
      test_uart_def test_usb_def Packet_init_def MAX_MTU_def errorCallback_calls_def
      log_only_def)

lemma length_buffer_init: "length (buffer Packet_init) = 517"
  by (simp add: Packet_init_def MAX_MTU_def)

lemma Uart_read_bound:
  "\<forall>n. fst (uart_read_bytes (adapter s) n) \<le> int n \<Longrightarrow> fst (Uart_read s buf) \<le> length buf"
proof -
  assume bound: "\<forall>n. fst (uart_read_bytes (adapter s) n) \<le> int n"
  obtain len bytes where r: "uart_read_bytes (adapter s) (length buf) = (len, bytes)"
    by (cases "uart_read_bytes (adapter s) (length buf)")
  from bound have "fst (uart_read_bytes (adapter s) (length buf)) \<le> int (length buf)"
    by blast
  then have "len \<le> int (length buf)" by (simp add: r)
  then show ?thesis
    by (auto simp: Uart_read_def r Let_def)
qed

lemma UsbJtag_read_bound:
  "\<forall>n. fst (usb_serial_jtag_read_bytes (adapter s) n) \<le> int n \<Longrightarrow>
   fst (UsbJtag_read s buf) \<le> length buf"
proof -
  assume bound: "\<forall>n. fst (usb_serial_jtag_read_bytes (adapter s) n) \<le> int n"
  obtain len bytes where r: "usb_serial_jtag_read_bytes (adapter s) (length buf) = (len, bytes)"
    by (cases "usb_serial_jtag_read_bytes (adapter s) (length buf)")
  from bound have "fst (usb_serial_jtag_read_bytes (adapter s) (length buf)) \<le> int (length buf)"
    by blast
  then have "len \<le> int (length buf)" by (simp add: r)
  then show ?thesis
    by (auto simp: UsbJtag_read_def r Let_def)
qed

lemma received_packet_valid:
  assumes "n \<le> 517" and "pkt_size (Packet_init\<lparr>pkt_size := of_nat n, buffer := buf\<rparr>) > 0"
  shows "isValid (Packet_init\<lparr>pkt_size := of_nat n, buffer := buf\<rparr>) \<and>
         pkt_id (Packet_init\<lparr>pkt_size := of_nat n, buffer := buf\<rparr>) = 0 \<and>
         unat (pkt_size (Packet_init\<lparr>pkt_size := of_nat n, buffer := buf\<rparr>)) = n"
proof -
  from assms(1) have "n < 2 ^ 16" by simp
  then have n: "unat (of_nat n :: 16 word) = n"
    by (simp add: unat_of_nat)
  with assms show ?thesis
    by (simp add: isValid_def word_le_nat_alt unat_MAX_MTU Packet_init_def)
qed

lemma Uart_delivered:
  assumes "\<forall>n. fst (uart_read_bytes (adapter s) n) \<le> int n"
    and "DataCallback p \<in> set (snd (Uart_processReceivedData s))"
  shows "isValid p \<and> pkt_id p = 0 \<and> unat (pkt_size p) = fst (Uart_read s (buffer Packet_init))"
proof -
  obtain n buf where r: "Uart_read s (buffer Packet_init) = (n, buf)"
    by (cases "Uart_read s (buffer Packet_init)")
  have "n \<le> 517"
    using Uart_read_bound [OF assms(1), of "buffer Packet_init"]
    by (simp add: r length_buffer_init)
  with assms(2) show ?thesis
    using received_packet_valid [of n buf]
    by (auto simp: Uart_processReceivedData_def Callback_invoke_def r
        split: option.splits if_splits)
qed

lemma UsbJtag_delivered:
  assumes "\<forall>n. fst (usb_serial_jtag_read_bytes (adapter s) n) \<le> int n"
    and "DataCallback p \<in> set (snd (UsbJtag_processReceivedData s))"
  shows "isValid p \<and> pkt_id p = 0 \<and> unat (pkt_size p) = fst (UsbJtag_read s (buffer Packet_init))"
proof -
  obtain n buf where r: "UsbJtag_read s (buffer Packet_init) = (n, buf)"
    by (cases "UsbJtag_read s (buffer Packet_init)")
  have "n \<le> 517"
    using UsbJtag_read_bound [OF assms(1), of "buffer Packet_init"]
    by (simp add: r length_buffer_init)
  with assms(2) show ?thesis
    using received_packet_valid [of n buf]
    by (auto simp: UsbJtag_processReceivedData_def Callback_invoke_def r
        split: option.splits if_splits)
qed

text \<open>
  Claim C10. With a driver whose read returns no more than the length asked for,
  every packet that \<open>Uart::processReceivedData\<close> or \<open>UsbJtag::processReceivedData\<close>
  passes to the bound receive handler is valid (its size is greater than 0 and at
  most 517), has id 0, and its size is the number of bytes the poll read, so the
  handler is called only when at least one byte was read.
\<close>

theorem serial_receive_delivers_valid_packets:
  "((\<forall>n. fst (uart_read_bytes (adapter s) n) \<le> int n) \<and>
    DataCallback p \<in> set (snd (Uart_processReceivedData s)) \<longrightarrow>
      isValid p \<and> 0 < unat (pkt_size p) \<and> unat (pkt_size p) \<le> 517 \<and> pkt_id p = 0 \<and>
      unat (pkt_size p) = fst (Uart_read s (buffer Packet_init))) \<and>
   ((\<forall>n. fst (usb_serial_jtag_read_bytes (adapter u) n) \<le> int n) \<and>
    DataCallback p \<in> set (snd (UsbJtag_processReceivedData u)) \<longrightarrow>
      isValid p \<and> 0 < unat (pkt_size p) \<and> unat (pkt_size p) \<le> 517 \<and> pkt_id p = 0 \<and>
      unat (pkt_size p) = fst (UsbJtag_read u (buffer Packet_init)))"
proof (intro conjI impI)
  assume a: "(\<forall>n. fst (uart_read_bytes (adapter s) n) \<le> int n) \<and>
    DataCallback p \<in> set (snd (Uart_processReceivedData s))"
  then have d: "isValid p \<and> pkt_id p = 0 \<and>
      unat (pkt_size p) = fst (Uart_read s (buffer Packet_init))"
    by (intro Uart_delivered) simp_all
  then show "isValid p" "pkt_id p = 0"
    "unat (pkt_size p) = fst (Uart_read s (buffer Packet_init))"
    by simp_all
  from d show "0 < unat (pkt_size p)" "unat (pkt_size p) \<le> 517"
    by (simp_all add: isValid_def word_less_nat_alt word_le_nat_alt unat_MAX_MTU)
next
  assume a: "(\<forall>n. fst (usb_serial_jtag_read_bytes (adapter u) n) \<le> int n) \<and>
    DataCallback p \<in> set (snd (UsbJtag_processReceivedData u))"
  then have d: "isValid p \<and> pkt_id p = 0 \<and>
      unat (pkt_size p) = fst (UsbJtag_read u (buffer Packet_init))"
    by (intro UsbJtag_delivered) simp_all
  then show "isValid p" "pkt_id p = 0"
    "unat (pkt_size p) = fst (UsbJtag_read u (buffer Packet_init))"
    by simp_all
  from d show "0 < unat (pkt_size p)" "unat (pkt_size p) \<le> 517"
    by (simp_all add: isValid_def word_less_nat_alt word_le_nat_alt unat_MAX_MTU)
qed


lemma buffer_init_nonempty: "buffer Packet_init \<noteq> []"
  using length_buffer_init by fastforce

lemma Uart_poll_example:
  "snd (Uart_processReceivedData (bind (running_engine test_uart None) (Some echo) None)) =
     [DataCallback (Packet_init\<lparr>pkt_size := 3, buffer := [1, 2, 3] @ drop 3 (buffer Packet_init)\<rparr>)]"
  by (simp add: Uart_processReceivedData_def bind_def running_engine_eq Uart_available_def
      isInitialized_def test_uart_def Uart_read_def Callback_invoke_def length_buffer_init
      buffer_init_nonempty numeral_3_eq_3)

lemma UsbJtag_poll_example:
  "snd (UsbJtag_processReceivedData (bind (running_engine test_usb None) (Some echo) None)) =
     [DataCallback (Packet_init\<lparr>pkt_size := 3, buffer := [1, 2, 3] @ drop 3 (buffer Packet_init)\<rparr>)]"
  by (simp add: UsbJtag_processReceivedData_def bind_def running_engine_eq
      isInitialized_def test_usb_def UsbJtag_read_def Callback_invoke_def length_buffer_init
      buffer_init_nonempty numeral_3_eq_3)

theorem serial_receive_delivers_valid_packets_witness:
  "snd (Uart_processReceivedData (bind (running_engine test_uart None) (Some echo) None)) =
     [DataCallback (Packet_init\<lparr>pkt_size := 3, buffer := [1, 2, 3] @ drop 3 (buffer Packet_init)\<rparr>)] \<and>
   snd (UsbJtag_processReceivedData (bind (running_engine test_usb None) (Some echo) None)) =
     [DataCallback (Packet_init\<lparr>pkt_size := 3, buffer := [1, 2, 3] @ drop 3 (buffer Packet_init)\<rparr>)] \<and>
   isValid (Packet_init\<lparr>pkt_size := 3, buffer := [1, 2, 3] @ drop 3 (buffer Packet_init)\<rparr>) \<and>
   pkt_id (Packet_init\<lparr>pkt_size := 3, buffer := [1, 2, 3] @ drop 3 (buffer Packet_init)\<rparr>) = 0"
  using serial_receive_delivers_valid_packets
    [where s = "bind (running_engine test_uart None) (Some echo) None"
      and u = "bind (running_engine test_usb None) (Some echo) None"
      and p = "Packet_init\<lparr>pkt_size := 3, buffer := [1, 2, 3] @ drop 3 (buffer Packet_init)\<rparr>"]
  unfolding Uart_poll_example UsbJtag_poll_example
  by (simp add: bind_def running_engine_eq test_uart_def test_usb_def)

end
